theory Spec2Isabelle
  imports Main
begin

section \<open>The environment: clock, random numbers, library calls\<close>

text \<open>
  The node reads the wall clock (\<^verbatim>\<open>Date.now()\<close>) and the random number generator
  (\<^verbatim>\<open>Math.random()\<close>). Both are inputs of the program. The \<open>k\<close>-th reading of the clock
  is \<open>clock w k\<close>, the \<open>k\<close>-th random suffix
  (\<^verbatim>\<open>Math.random().toString(36).substr(2, 9)\<close>) is \<open>random w k\<close>; the two counters say
  how many readings have been consumed.
\<close>

record world =
  clock :: "nat \<Rightarrow> int"
  random :: "nat \<Rightarrow> string"
  clockReads :: nat
  randomReads :: nat

definition dateNow :: "world \<Rightarrow> int \<times> world" where
  "dateNow w = (clock w (clockReads w), w\<lparr>clockReads := Suc (clockReads w)\<rparr>)"

definition mathRandom :: "world \<Rightarrow> string \<times> world" where
  "mathRandom w = (random w (randomReads w), w\<lparr>randomReads := Suc (randomReads w)\<rparr>)"

text \<open>\<open>n\<close> readings of the clock whose values do not reach chain, pool or ledger.\<close>

definition skipClock :: "nat \<Rightarrow> world \<Rightarrow> world" where
  "skipClock n w = w\<lparr>clockReads := clockReads w + n\<rparr>"

text \<open>JavaScript's conversion of an integer to its decimal string.\<close>

definition digitChar :: "nat \<Rightarrow> char" where
  "digitChar d = ''0123456789'' ! d"

function digits :: "nat \<Rightarrow> string" where
  "digits n = (if n < 10 then [digitChar n] else digits (n div 10) @ [digitChar (n mod 10)])"
  by pat_completeness auto
termination
  by (relation "measure (\<lambda>n. n)") auto

declare digits.simps [simp del]

definition toString :: "int \<Rightarrow> string" where
  "toString i = (if i < 0 then CHR ''-'' # digits (nat (- i)) else digits (nat i))"

section \<open>Errors\<close>

text \<open>
  \<open>InsufficientBalance needed current\<close> is the \<^verbatim>\<open>Error\<close> that \<^verbatim>\<open>spendUTXO\<close> throws
  (its message carries both numbers); \<open>InvalidTransaction\<close>, \<open>CannotProcess\<close> and
  \<open>AlreadyPending\<close> are the three errors of \<^verbatim>\<open>addTransaction\<close>; \<open>InvalidMinedBlock\<close>
  is the error of \<^verbatim>\<open>mineBlock\<close>; \<open>LibraryError\<close> is any exception of the signature
  library; \<open>TypeError\<close> is a read of a field of \<^verbatim>\<open>undefined\<close>.
\<close>

datatype error =
    InsufficientBalance int int
  | InvalidTransaction
  | CannotProcess
  | AlreadyPending
  | InvalidMinedBlock
  | LibraryError string
  | TypeError

section \<open>The UTXO ledger (class UTXOSet)\<close>

record utxo =
  utxo_txId :: string
  utxo_amount :: int
  outputIndex :: nat
  utxo_timestamp :: int

record UTXOSet =
  utxos :: "string \<rightharpoonup> utxo list"
  balances :: "string \<rightharpoonup> int"

type_synonym ledger = "UTXOSet \<times> world"

definition emptyUTXOSet :: UTXOSet where
  "emptyUTXOSet = \<lparr>utxos = Map.empty, balances = Map.empty\<rparr>"

definition clear :: "UTXOSet \<Rightarrow> UTXOSet" where
  "clear u = u\<lparr>utxos := Map.empty, balances := Map.empty\<rparr>"

definition getBalance :: "UTXOSet \<Rightarrow> string \<Rightarrow> int" where
  "getBalance u address = (case balances u address of None \<Rightarrow> 0 | Some b \<Rightarrow> b)"

definition getUTXOs :: "UTXOSet \<Rightarrow> string \<Rightarrow> utxo list" where
  "getUTXOs u address = (case utxos u address of None \<Rightarrow> [] | Some l \<Rightarrow> l)"

definition addUTXO :: "string \<Rightarrow> string \<Rightarrow> int \<Rightarrow> nat \<Rightarrow> ledger \<Rightarrow> ledger" where
  "addUTXO address tid amt oi s =
     (case s of (u, w) \<Rightarrow>
        (case dateNow w of (now, w1) \<Rightarrow>
           (let x = \<lparr>utxo_txId = tid, utxo_amount = amt, outputIndex = oi, utxo_timestamp = now\<rparr>;
                u1 = u\<lparr>utxos := (utxos u)(address \<mapsto> getUTXOs u address @ [x])\<rparr>;
                currentBalance = getBalance u1 address
            in (u1\<lparr>balances := (balances u1)(address \<mapsto> currentBalance + amt)\<rparr>, w1))))"

definition generateTxId :: "world \<Rightarrow> string \<times> world" where
  "generateTxId w =
     (case dateNow w of (now, w1) \<Rightarrow>
        (case mathRandom w1 of (suffix, w2) \<Rightarrow> (toString now @ suffix, w2)))"

text \<open>
  The greedy loop of \<^verbatim>\<open>spendUTXO\<close> over the outputs sorted by descending amount: it stops
  as soon as the selected total covers the amount. The accumulator is
  \<open>(toSpend, totalSelected)\<close>.
\<close>

fun selectLargest :: "int \<Rightarrow> utxo list \<Rightarrow> utxo list \<times> int \<Rightarrow> utxo list \<times> int" where
  "selectLargest amt [] acc = acc"
| "selectLargest amt (x # xs) (toSpend, totalSelected) =
     (if totalSelected \<ge> amt then (toSpend, totalSelected)
      else selectLargest amt xs (toSpend @ [x], totalSelected + utxo_amount x))"

text \<open>
  \<^verbatim>\<open>findIndex\<close> on tx id and output index followed by \<^verbatim>\<open>splice(index, 1)\<close>: the first
  output with the key of the spent one is removed, none when there is no such output.
\<close>

definition sameOutput :: "utxo \<Rightarrow> utxo \<Rightarrow> bool" where
  "sameOutput spent x = (utxo_txId x = utxo_txId spent \<and> outputIndex x = outputIndex spent)"

fun removeSpent :: "utxo \<Rightarrow> utxo list \<Rightarrow> utxo list" where
  "removeSpent spent [] = []"
| "removeSpent spent (x # xs) = (if sameOutput spent x then xs else x # removeSpent spent xs)"

record spendResult =
  spentUTXOs :: "utxo list"
  change :: int
  totalSpent :: int

text \<open>
  \<^verbatim>\<open>spendUTXO\<close>. The outputs of the address are mutated in place when the address has an
  entry; without an entry the loop runs over a fresh empty array that is not stored.
  JavaScript's \<^verbatim>\<open>sort\<close> is stable, as \<open>sort_key\<close> is.
\<close>

definition spendUTXO :: "string \<Rightarrow> int \<Rightarrow> ledger \<Rightarrow> (error + spendResult) \<times> ledger" where
  "spendUTXO address amt s =
     (case s of (u, w) \<Rightarrow>
        if getBalance u address < amt
        then (Inl (InsufficientBalance amt (getBalance u address)), (u, w))
        else
          (let addressUTXOs = getUTXOs u address;
               sortedUTXOs = sort_key (\<lambda>x. - utxo_amount x) addressUTXOs
           in case selectLargest amt sortedUTXOs ([], 0) of (toSpend, totalSelected) \<Rightarrow>
             (let remaining = foldl (\<lambda>l spent. removeSpent spent l) addressUTXOs toSpend;
                  u1 = (case utxos u address of
                          None \<Rightarrow> u
                        | Some l \<Rightarrow> u\<lparr>utxos := (utxos u)(address \<mapsto> remaining)\<rparr>);
                  currentBalance = getBalance u1 address;
                  u2 = u1\<lparr>balances := (balances u1)(address \<mapsto> currentBalance - amt)\<rparr>;
                  chg = totalSelected - amt;
                  s3 = (if chg > 0
                        then (case generateTxId w of (changeTxId, w1) \<Rightarrow>
                                addUTXO address changeTxId chg 1 (u2, w1))
                        else (u2, w))
              in (Inr \<lparr>spentUTXOs = toSpend, change = chg, totalSpent = totalSelected\<rparr>, s3))))"

section \<open>Transactions (class Transaction)\<close>

text \<open>
  \<open>fromAddress = None\<close> is \<^verbatim>\<open>null\<close>, the mark of a coinbase; an empty string is the
  other falsy address. \<open>signature = None\<close> is \<^verbatim>\<open>null\<close>. Amounts are integer units.
\<close>

record ecdsaSignature =
  sig_r :: string
  sig_s :: string
  recoveryId :: int

record transaction =
  fromAddress :: "string option"
  toAddress :: string
  amount :: int
  fee :: int
  timestamp :: int
  signature :: "ecdsaSignature option"
  txId :: string

text \<open>
  The library calls, parameters of the model: \<open>sha256hex\<close> is
  \<^verbatim>\<open>crypto.createHash('sha256').update(data).digest('hex')\<close>; \<open>jsonStringify\<close> is
  \<^verbatim>\<open>JSON.stringify\<close> on a transaction array; \<open>recoverPublicKey hashTx sig\<close> is what
  \<^verbatim>\<open>fromHex(r)\<close>, \<^verbatim>\<open>fromHex(s)\<close> and \<^verbatim>\<open>secp256k1.ecdsaRecover\<close> on the digest of
  \<open>hashTx\<close> give, the public key or an exception; \<open>hash160hex\<close> is the hex string of
  RIPEMD160 of SHA256 of the public key.
\<close>

record externals =
  sha256hex :: "string \<Rightarrow> string"
  jsonStringify :: "transaction list \<Rightarrow> string"
  recoverPublicKey :: "string \<Rightarrow> ecdsaSignature \<Rightarrow> error + string"
  hash160hex :: "string \<Rightarrow> string"

definition calculateHash :: "externals \<Rightarrow> transaction \<Rightarrow> string" where
  "calculateHash ext tx =
     sha256hex ext
       ((case fromAddress tx of None \<Rightarrow> [] | Some a \<Rightarrow> a) @ toAddress tx @
        toString (amount tx) @ toString (fee tx) @ toString (timestamp tx))"

definition publicKeyToAddress :: "externals \<Rightarrow> string \<Rightarrow> string" where
  "publicKeyToAddress ext publicKey = ''cosmos'' @ take 40 (hash160hex ext publicKey)"

text \<open>
  \<^verbatim>\<open>Transaction.js\<close> imports \<^verbatim>\<open>Sha256\<close> from \<^verbatim>\<open>@cosmjs/crypto\<close>, where it is a class (the
  hash function of that library is \<^verbatim>\<open>sha256\<close>), and calls it as \<^verbatim>\<open>Sha256(fromHex(hashTx))\<close>,
  without \<^verbatim>\<open>new\<close>. JavaScript throws a \<^verbatim>\<open>TypeError\<close> on the call of a class as a function,
  before the constructor runs, whatever the argument is.
\<close>

definition Sha256 :: "string \<Rightarrow> error + string" where
  "Sha256 bytes = Inl TypeError"

text \<open>
  The body of the \<^verbatim>\<open>try\<close> block of \<^verbatim>\<open>isValid\<close>: its value, or the exception. Its first
  statement is the call of \<^verbatim>\<open>Sha256\<close>.
\<close>

definition verifySignature :: "externals \<Rightarrow> transaction \<Rightarrow> ecdsaSignature \<Rightarrow> error + bool" where
  "verifySignature ext tx sg =
     (case Sha256 (calculateHash ext tx) of
        Inl e \<Rightarrow> Inl e
      | Inr msgHash \<Rightarrow>
          (case recoverPublicKey ext (calculateHash ext tx) sg of
             Inl e \<Rightarrow> Inl e
           | Inr publicKey \<Rightarrow>
               (if Some (publicKeyToAddress ext publicKey) \<noteq> fromAddress tx then Inr False
                else Inr True)))"

definition tryCatch :: "error + 'a \<Rightarrow> (error \<Rightarrow> error + 'a) \<Rightarrow> error + 'a" where
  "tryCatch body handler = (case body of Inl e \<Rightarrow> handler e | Inr v \<Rightarrow> Inr v)"

definition isValid :: "externals \<Rightarrow> transaction \<Rightarrow> error + bool" where
  "isValid ext tx =
     (if fromAddress tx = None then Inr (amount tx > 0)
      else
        (case signature tx of
           None \<Rightarrow> Inr False
         | Some sg \<Rightarrow>
            (if fromAddress tx = Some [] \<or> toAddress tx = [] then Inr False
             else if amount tx \<le> 0 then Inr False
             else if fromAddress tx = Some (toAddress tx) then Inr False
             else tryCatch (verifySignature ext tx sg) (\<lambda>e. Inr False))))"


subsection \<open>Applying a transaction to the ledger\<close>

definition processTransaction :: "transaction \<Rightarrow> ledger \<Rightarrow> error option \<times> ledger" where
  "processTransaction tx s =
     (case fromAddress tx of
        None \<Rightarrow> (None, addUTXO (toAddress tx) (txId tx) (amount tx) 0 s)
      | Some sender \<Rightarrow>
          (case spendUTXO sender (amount tx + fee tx) s of
             (Inl e, s1) \<Rightarrow> (Some e, s1)
           | (Inr spendRes, s1) \<Rightarrow>
               (None, addUTXO (toAddress tx) (txId tx) (amount tx) 0 s1)))"

definition canProcessTransaction :: "UTXOSet \<Rightarrow> transaction \<Rightarrow> bool" where
  "canProcessTransaction u tx =
     (case fromAddress tx of
        None \<Rightarrow> True
      | Some sender \<Rightarrow> getBalance u sender \<ge> amount tx + fee tx)"

text \<open>A \<^verbatim>\<open>for\<close> loop of \<^verbatim>\<open>processTransaction\<close> calls: the first exception ends it.\<close>

fun processTransactions :: "transaction list \<Rightarrow> ledger \<Rightarrow> error option \<times> ledger" where
  "processTransactions [] s = (None, s)"
| "processTransactions (tx # txs) s =
     (case processTransaction tx s of
        (Some e, s1) \<Rightarrow> (Some e, s1)
      | (None, s1) \<Rightarrow> processTransactions txs s1)"

section \<open>Blocks (class Block)\<close>

text \<open>The Merkle root is left out: no check of the chain reads it.\<close>

record block =
  index :: int
  previousHash :: string
  blockTimestamp :: int
  transactions :: "transaction list"
  nonce :: int
  hash :: string

definition calculateBlockHash :: "externals \<Rightarrow> block \<Rightarrow> string" where
  "calculateBlockHash ext b =
     sha256hex ext
       (toString (index b) @ previousHash b @ toString (blockTimestamp b) @
        jsonStringify ext (transactions b) @ toString (nonce b))"

definition newBlock :: "externals \<Rightarrow> int \<Rightarrow> string \<Rightarrow> int \<Rightarrow> transaction list \<Rightarrow> block" where
  "newBlock ext i prev ts txs =
     (let b = \<lparr>index = i, previousHash = prev, blockTimestamp = ts, transactions = txs,
                nonce = 0, hash = []\<rparr>
      in b\<lparr>hash := calculateBlockHash ext b\<rparr>)"

definition hasValidHash :: "externals \<Rightarrow> block \<Rightarrow> bool" where
  "hasValidHash ext b = (hash b = calculateBlockHash ext b)"

text \<open>
  \<^verbatim>\<open>hasValidTransactions\<close> returns false at the first \<^verbatim>\<open>Transaction\<close> object whose
  \<^verbatim>\<open>isValid()\<close> is not true. The transactions of the model are \<^verbatim>\<open>Transaction\<close> objects:
  those that \<^verbatim>\<open>mineBlock\<close> and \<^verbatim>\<open>addTransaction\<close> handle, and those that \<^verbatim>\<open>Block.fromJSON\<close>
  builds from entries with a \<^verbatim>\<open>fromAddress\<close> field. An entry without that field stays a
  plain object, which the check skips; such entries are outside the model.
\<close>

definition hasValidTransactions :: "externals \<Rightarrow> block \<Rightarrow> bool" where
  "hasValidTransactions ext b = list_all (\<lambda>tx. isValid ext tx = Inr True) (transactions b)"

definition target :: "nat \<Rightarrow> string" where
  "target d = replicate d CHR ''0''"



section \<open>The chain (class Blockchain)\<close>

record Blockchain =
  chain :: "block list"
  difficulty :: nat
  pendingTransactions :: "transaction list"
  miningReward :: int
  utxoSet :: UTXOSet
  blockTime :: int
  difficultyAdjustmentInterval :: int

type_synonym node = "Blockchain \<times> world"

definition getLatestBlock :: "Blockchain \<Rightarrow> block option" where
  "getLatestBlock bc = (if chain bc = [] then None else Some (last (chain bc)))"

definition addTransaction ::
    "externals \<Rightarrow> transaction \<Rightarrow> Blockchain \<Rightarrow> (error + string) \<times> Blockchain" where
  "addTransaction ext tx bc =
     (if isValid ext tx \<noteq> Inr True then (Inl InvalidTransaction, bc)
      else if \<not> canProcessTransaction (utxoSet bc) tx then (Inl CannotProcess, bc)
      else if find (\<lambda>p. txId p = txId tx) (pendingTransactions bc) \<noteq> None
      then (Inl AlreadyPending, bc)
      else (Inr (txId tx), bc\<lparr>pendingTransactions := pendingTransactions bc @ [tx]\<rparr>))"

definition maxTransactions :: nat where
  "maxTransactions = 100"

text \<open>
  \<^verbatim>\<open>selectTransactionsForBlock\<close> pushes the selection onto the array it is given and
  returns the fees; the model returns both.
\<close>

definition selectTransactionsForBlock ::
    "Blockchain \<Rightarrow> transaction list \<Rightarrow> transaction list \<times> int" where
  "selectTransactionsForBlock bc txs =
     (let sortedPending =
            take (maxTransactions - 1)
              (sort_key (\<lambda>tx. - fee tx)
                 (filter (canProcessTransaction (utxoSet bc)) (pendingTransactions bc)))
      in (txs @ sortedPending, sum_list (map fee sortedPending)))"

definition removePendingTransactions :: "transaction list \<Rightarrow> Blockchain \<Rightarrow> Blockchain" where
  "removePendingTransactions processedTransactions bc =
     (let processedTxIds = map txId (filter (\<lambda>tx. txId tx \<noteq> []) processedTransactions)
      in bc\<lparr>pendingTransactions :=
               filter (\<lambda>tx. txId tx \<notin> set processedTxIds) (pendingTransactions bc)\<rparr>)"

text \<open>
  \<^verbatim>\<open>chain[i]\<close> for a number \<open>i\<close>: \<^verbatim>\<open>undefined\<close> out of range.
\<close>

definition at :: "'a list \<Rightarrow> int \<Rightarrow> 'a option" where
  "at xs i = (if 0 \<le> i \<and> i < int (length xs) then Some (xs ! nat i) else None)"

text \<open>
  \<^verbatim>\<open>adjustDifficulty\<close>. The comparison \<^verbatim>\<open>timeActual < timeExpected / 2\<close> is on numbers with
  fractions; on integers it is \<open>2 * timeActual < timeExpected\<close>.
\<close>

definition adjustDifficulty :: "Blockchain \<Rightarrow> error + Blockchain" where
  "adjustDifficulty bc =
     (case getLatestBlock bc of
        None \<Rightarrow> Inl TypeError
      | Some latestBlock \<Rightarrow>
          if index latestBlock mod difficultyAdjustmentInterval bc \<noteq> 0 then Inr bc
          else if index latestBlock = 0 then Inr bc
          else
            (case at (chain bc) (int (length (chain bc)) - difficultyAdjustmentInterval bc) of
               None \<Rightarrow> Inl TypeError
             | Some prevAdjustmentBlock \<Rightarrow>
                 (let timeExpected = blockTime bc * difficultyAdjustmentInterval bc;
                      timeActual = blockTimestamp latestBlock - blockTimestamp prevAdjustmentBlock
                  in if 2 * timeActual < timeExpected
                     then Inr (bc\<lparr>difficulty := difficulty bc + 1\<rparr>)
                     else if timeActual > timeExpected * 2
                     then Inr (bc\<lparr>difficulty := max 1 (difficulty bc - 1)\<rparr>)
                     else Inr bc)))"

definition isValidNewBlock :: "externals \<Rightarrow> Blockchain \<Rightarrow> block \<Rightarrow> block \<Rightarrow> bool" where
  "isValidNewBlock ext bc nb previousBlock =
     (if index nb \<noteq> index previousBlock + 1 then False
      else if previousHash nb \<noteq> hash previousBlock then False
      else if \<not> hasValidHash ext nb then False
      else if take (difficulty bc) (hash nb) \<noteq> target (difficulty bc) then False
      else if \<not> hasValidTransactions ext nb then False
      else True)"

fun isValidChain :: "externals \<Rightarrow> Blockchain \<Rightarrow> block list \<Rightarrow> bool" where
  "isValidChain ext bc (previousBlock # currentBlock # rest) =
     (if \<not> isValidNewBlock ext bc currentBlock previousBlock then False
      else isValidChain ext bc (currentBlock # rest))"
| "isValidChain ext bc [b] = True"
| "isValidChain ext bc [] = True"

fun processBlocks :: "block list \<Rightarrow> ledger \<Rightarrow> error option \<times> ledger" where
  "processBlocks [] s = (None, s)"
| "processBlocks (b # bs) s =
     (case processTransactions (transactions b) s of
        (Some e, s1) \<Rightarrow> (Some e, s1)
      | (None, s1) \<Rightarrow> processBlocks bs s1)"

definition rebuildUTXOSet :: "node \<Rightarrow> error option \<times> node" where
  "rebuildUTXOSet n =
     (case n of (bc, w) \<Rightarrow>
        (case processBlocks (chain bc) (clear (utxoSet bc), w) of
           (r, (u, w1)) \<Rightarrow> (r, (bc\<lparr>utxoSet := u\<rparr>, w1))))"

text \<open>
  \<^verbatim>\<open>replaceChain\<close> calls the asynchronous \<^verbatim>\<open>rebuildUTXOSet\<close> without awaiting it. Its body
  has no suspension point, so it runs to its end or to its first exception before
  \<^verbatim>\<open>replaceChain\<close> returns; the exception rejects a promise that nobody reads.
\<close>

definition replaceChain :: "externals \<Rightarrow> block list \<Rightarrow> node \<Rightarrow> bool \<times> node" where
  "replaceChain ext newChain n =
     (case n of (bc, w) \<Rightarrow>
        if length newChain > length (chain bc) \<and> isValidChain ext bc newChain
        then (case rebuildUTXOSet (bc\<lparr>chain := newChain\<rparr>, w) of (r, n1) \<Rightarrow> (True, n1))
        else (False, n))"



section \<open>Peer gossip (class P2PNetwork)\<close>

datatype readyState = CONNECTING | OPEN | CLOSING | CLOSED

record peer =
  readyState :: readyState
  chainHeight :: int

datatype message =
    REQUEST_CHAIN
  | RECEIVE_CHAIN "block list"
  | RECEIVE_LATEST_BLOCK block
  | NEW_TRANSACTION transaction
  | NEW_BLOCK block

text \<open>
  \<open>peers\<close> is the map from peer id to peer, in insertion order; \<open>sent\<close> records every
  \<^verbatim>\<open>ws.send\<close>, as the id of the receiving peer and the message.
\<close>

record P2PNetwork =
  blockchain :: Blockchain
  peers :: "(string \<times> peer) list"
  sent :: "(string \<times> message) list"

type_synonym p2p = "P2PNetwork \<times> world"

text \<open>\<^verbatim>\<open>excludeId && peerId === excludeId\<close>: \<^verbatim>\<open>null\<close> and the empty string exclude nobody.\<close>

definition excluded :: "string option \<Rightarrow> string \<Rightarrow> bool" where
  "excluded excludeId peerId =
     (case excludeId of None \<Rightarrow> False | Some e \<Rightarrow> e \<noteq> [] \<and> peerId = e)"

fun broadcastTo ::
    "message \<Rightarrow> string option \<Rightarrow> (string \<times> peer) list \<Rightarrow> (string \<times> message) list" where
  "broadcastTo msg excludeId [] = []"
| "broadcastTo msg excludeId ((peerId, p) # rest) =
     (if excluded excludeId peerId then broadcastTo msg excludeId rest
      else if readyState p = OPEN then (peerId, msg) # broadcastTo msg excludeId rest
      else broadcastTo msg excludeId rest)"

text \<open>
  \<^verbatim>\<open>sendMessage\<close> stamps every message with \<^verbatim>\<open>Date.now()\<close>: each send is one reading of the
  clock. The stamp is not kept in \<open>sent\<close>.
\<close>

definition broadcastMessage :: "message \<Rightarrow> string option \<Rightarrow> p2p \<Rightarrow> p2p" where
  "broadcastMessage msg excludeId st =
     (case st of (net, w) \<Rightarrow>
        (let out = broadcastTo msg excludeId (peers net)
         in (net\<lparr>sent := sent net @ out\<rparr>, skipClock (length out) w)))"

text \<open>
  \<^verbatim>\<open>Transaction.fromJSON\<close> and \<^verbatim>\<open>Block.fromJSON\<close> rebuild the objects of a message field by
  field; the model takes the objects as the message's content. The constructor of
  \<^verbatim>\<open>Transaction\<close> reads the clock once for a timestamp that \<^verbatim>\<open>fromJSON\<close> then overwrites.
\<close>

definition transactionFromJSON :: "transaction \<Rightarrow> world \<Rightarrow> transaction \<times> world" where
  "transactionFromJSON tx w = (tx, skipClock 1 w)"

definition blockFromJSON :: "block \<Rightarrow> world \<Rightarrow> block \<times> world" where
  "blockFromJSON b w = (b, skipClock (length (transactions b)) w)"

fun chainFromJSON :: "block list \<Rightarrow> world \<Rightarrow> block list \<times> world" where
  "chainFromJSON [] w = ([], w)"
| "chainFromJSON (b # bs) w =
     (case blockFromJSON b w of (b1, w1) \<Rightarrow>
        (case chainFromJSON bs w1 of (bs1, w2) \<Rightarrow> (b1 # bs1, w2)))"

text \<open>
  The handlers run inside \<^verbatim>\<open>try\<close> blocks that log and drop every exception; the state
  at the exception stays.
\<close>

definition handleReceiveChain :: "externals \<Rightarrow> block list \<Rightarrow> p2p \<Rightarrow> p2p" where
  "handleReceiveChain ext chainData st =
     (case st of (net, w) \<Rightarrow>
        (case chainFromJSON chainData w of (receivedChain, w0) \<Rightarrow>
           (case replaceChain ext receivedChain (blockchain net, w0) of
              (replaced, (bc, w1)) \<Rightarrow> (net\<lparr>blockchain := bc\<rparr>, w1))))"

definition handleReceiveLatestBlock :: "externals \<Rightarrow> block \<Rightarrow> p2p \<Rightarrow> p2p" where
  "handleReceiveLatestBlock ext blockData st =
     (case st of (net, w) \<Rightarrow>
      (case blockFromJSON blockData w of (receivedBlock, w0) \<Rightarrow>
        (case getLatestBlock (blockchain net) of
           None \<Rightarrow> (net, w0)
         | Some latestBlock \<Rightarrow>
             if index receivedBlock = index latestBlock + 1 \<and>
                previousHash receivedBlock = hash latestBlock
             then
               (if isValidNewBlock ext (blockchain net) receivedBlock latestBlock
                then
                  (let bc1 = (blockchain net)\<lparr>chain := chain (blockchain net) @ [receivedBlock]\<rparr>
                   in case processTransactions (transactions receivedBlock) (utxoSet bc1, w0) of
                        (r, (u, w1)) \<Rightarrow> (net\<lparr>blockchain := bc1\<lparr>utxoSet := u\<rparr>\<rparr>, w1))
                else (net, w0))
             else broadcastMessage REQUEST_CHAIN None (net, w0))))"

definition handleNewTransaction :: "externals \<Rightarrow> transaction \<Rightarrow> p2p \<Rightarrow> p2p" where
  "handleNewTransaction ext transactionData st =
     (case st of (net, w) \<Rightarrow>
      (case transactionFromJSON transactionData w of (tx, w0) \<Rightarrow>
        if isValid ext tx = Inr True \<and> canProcessTransaction (utxoSet (blockchain net)) tx
        then
          (case addTransaction ext tx (blockchain net) of
             (Inl e, bc) \<Rightarrow> (net\<lparr>blockchain := bc\<rparr>, w0)
           | (Inr tid, bc) \<Rightarrow>
               broadcastMessage (NEW_TRANSACTION transactionData) (Some (txId tx))
                 (net\<lparr>blockchain := bc\<rparr>, w0))
        else (net, w0)))"

definition handleNewBlock :: "externals \<Rightarrow> block \<Rightarrow> p2p \<Rightarrow> p2p" where
  "handleNewBlock ext blockData st =
     (case st of (net, w) \<Rightarrow>
      (case blockFromJSON blockData w of (nb, w0) \<Rightarrow>
        (case getLatestBlock (blockchain net) of
           None \<Rightarrow> (net, w0)
         | Some latestBlock \<Rightarrow>
             if isValidNewBlock ext (blockchain net) nb latestBlock
             then
               (let bc1 = (blockchain net)\<lparr>chain := chain (blockchain net) @ [nb]\<rparr>
                in case processTransactions (transactions nb) (utxoSet bc1, w0) of
                     (Some e, (u, w1)) \<Rightarrow> (net\<lparr>blockchain := bc1\<lparr>utxoSet := u\<rparr>\<rparr>, w1)
                   | (None, (u, w1)) \<Rightarrow>
                       broadcastMessage (NEW_BLOCK blockData) (Some (hash nb))
                         (net\<lparr>blockchain := bc1\<lparr>utxoSet := u\<rparr>\<rparr>, w1))
             else (net, w0))))"

text \<open>
  \<^verbatim>\<open>handleMessage(peer, message)\<close> for the message kinds above; \<open>sender\<close> is the id of the
  peer the message came from. \<^verbatim>\<open>REQUEST_CHAIN\<close> is answered with the chain.
\<close>

definition sendToPeer :: "string \<Rightarrow> message \<Rightarrow> p2p \<Rightarrow> p2p" where
  "sendToPeer peerId msg st =
     (case st of (net, w) \<Rightarrow>
        (case map_of (peers net) peerId of
           None \<Rightarrow> (net, w)
         | Some p \<Rightarrow>
             if readyState p = OPEN
             then (net\<lparr>sent := sent net @ [(peerId, msg)]\<rparr>, skipClock 1 w)
             else (net, w)))"

fun handleMessage :: "externals \<Rightarrow> string \<Rightarrow> message \<Rightarrow> p2p \<Rightarrow> p2p" where
  "handleMessage ext sender REQUEST_CHAIN (net, w) =
     sendToPeer sender (RECEIVE_CHAIN (chain (blockchain net))) (net, w)"
| "handleMessage ext sender (RECEIVE_CHAIN c) st = handleReceiveChain ext c st"
| "handleMessage ext sender (RECEIVE_LATEST_BLOCK b) st = handleReceiveLatestBlock ext b st"
| "handleMessage ext sender (NEW_TRANSACTION tx) st = handleNewTransaction ext tx st"
| "handleMessage ext sender (NEW_BLOCK b) st = handleNewBlock ext b st"

section \<open>A concrete node\<close>

text \<open>
  An instance of the library parameters, two worlds and a small node, on which the
  definitions above are evaluated. In this instance the recovery of a public key succeeds
  when the \<open>s\<close> component of the signature is the hash it signs, and the key is the \<open>r\<close>
  component; \<^verbatim>\<open>isValid\<close> never comes to it. The random suffixes have the 9 characters of
  \<^verbatim>\<open>substr(2, 9)\<close>.
\<close>

definition demoExternals :: externals where
  "demoExternals =
     \<lparr>sha256hex = (\<lambda>data. ''00'' @ data),
      jsonStringify = (\<lambda>txs. concat (map txId txs)),
      recoverPublicKey =
        (\<lambda>hashTx sg. if sig_s sg = hashTx then Inr (sig_r sg)
                      else Inl (LibraryError ''recover'')),
      hash160hex = (\<lambda>publicKey. publicKey)\<rparr>"

definition demoWorld :: world where
  "demoWorld =
     \<lparr>clock = (\<lambda>k. 1000 + int k), random = (\<lambda>k. ''x7f3k9q2'' @ [digitChar (k mod 10)]),
      clockReads = 0, randomReads = 0\<rparr>"

definition otherWorld :: world where
  "otherWorld =
     \<lparr>clock = (\<lambda>k. 500 + 2 * int k), random = (\<lambda>k. ''m4p8z1w6'' @ [digitChar (k mod 10)]),
      clockReads = 0, randomReads = 0\<rparr>"

text \<open>A transfer whose signature recovers to its sender and whose tx id is its hash.\<close>

definition signedTransfer :: "string \<Rightarrow> string \<Rightarrow> int \<Rightarrow> int \<Rightarrow> int \<Rightarrow> transaction" where
  "signedTransfer key toAddr amt f ts =
     (let tx = \<lparr>fromAddress = Some (''cosmos'' @ key), toAddress = toAddr, amount = amt,
                 fee = f, timestamp = ts, signature = None, txId = []\<rparr>;
          h = calculateHash demoExternals tx
      in tx\<lparr>signature := Some \<lparr>sig_r = key, sig_s = h, recoveryId = 0\<rparr>, txId := h\<rparr>)"

definition transferToA :: transaction where
  "transferToA = signedTransfer ''M'' ''cosmosA'' 80 0 5"

text \<open>Two transactions without a sender, as a peer can send them.\<close>

definition coinbaseToM :: transaction where
  "coinbaseToM = \<lparr>fromAddress = None, toAddress = ''cosmosM'', amount = 50, fee = 0,
                   timestamp = 1, signature = None, txId = ''c1''\<rparr>"

definition coinbaseToN :: transaction where
  "coinbaseToN = \<lparr>fromAddress = None, toAddress = ''cosmosN'', amount = 20, fee = 3,
                   timestamp = 2, signature = None, txId = ''c2''\<rparr>"

text \<open>A ledger in which the address \<open>cosmosM\<close> holds one output of 100.\<close>

definition fundedLedger :: ledger where
  "fundedLedger = addUTXO ''cosmosM'' ''g'' 100 0 (emptyUTXOSet, demoWorld)"

definition genesisBlock :: block where
  "genesisBlock = newBlock demoExternals 0 ''0'' 0 []"

definition demoChain :: Blockchain where
  "demoChain =
     \<lparr>chain = [genesisBlock], difficulty = 2, pendingTransactions = [coinbaseToM, coinbaseToN],
      miningReward = 50, utxoSet = fst fundedLedger, blockTime = 10000,
      difficultyAdjustmentInterval = 10\<rparr>"

text \<open>A block for height 1 that carries the pending transaction for \<open>cosmosM\<close>.\<close>

definition gossipBlock :: block where
  "gossipBlock = newBlock demoExternals 1 (hash genesisBlock) 7 [coinbaseToM]"

definition demoPeers :: "(string \<times> peer) list" where
  "demoPeers =
     [(''ws://p:6001'', \<lparr>readyState = OPEN, chainHeight = 0\<rparr>),
      (''ws://q:6001'', \<lparr>readyState = OPEN, chainHeight = 0\<rparr>)]"

definition demoNetwork :: P2PNetwork where
  "demoNetwork = \<lparr>blockchain = demoChain, peers = demoPeers, sent = []\<rparr>"

text \<open>
  Eleven blocks, heights 0 to 10: block 0 at time 0, block 1 at 10000 ms, block 10 at
  55000 ms.
\<close>

definition blockAt :: "int \<Rightarrow> int \<Rightarrow> block" where
  "blockAt i ts =
     \<lparr>index = i, previousHash = [], blockTimestamp = ts, transactions = [], nonce = 0, hash = []\<rparr>"

definition elevenBlocks :: "block list" where
  "elevenBlocks =
     [blockAt 0 0, blockAt 1 10000, blockAt 2 15000, blockAt 3 20000, blockAt 4 25000,
      blockAt 5 30000, blockAt 6 35000, blockAt 7 40000, blockAt 8 45000, blockAt 9 50000,
      blockAt 10 55000]"

text \<open>
  A transfer as it stands in a stored or received chain; the rebuild of the ledger reads
  neither its signature nor its tx id's origin.
\<close>

definition storedTransfer :: "string \<Rightarrow> string \<Rightarrow> int \<Rightarrow> int \<Rightarrow> string \<Rightarrow> transaction" where
  "storedTransfer sender toAddr amt f tid =
     \<lparr>fromAddress = Some sender, toAddress = toAddr, amount = amt, fee = f, timestamp = 3,
      signature = None, txId = tid\<rparr>"

text \<open>
  A candidate chain whose block 0 holds a transfer from \<open>cosmosX\<close>, which owns nothing,
  and then a coinbase for \<open>cosmosZ\<close>; its block 1 holds a coinbase only. \<^verbatim>\<open>isValidChain\<close>
  starts at block 1 and never looks into block 0.
\<close>

definition coinbaseToZ :: transaction where
  "coinbaseToZ = \<lparr>fromAddress = None, toAddress = ''cosmosZ'', amount = 10, fee = 0,
                   timestamp = 4, signature = None, txId = ''c3''\<rparr>"

definition forgedGenesis :: block where
  "forgedGenesis =
     newBlock demoExternals 0 ''0'' 0 [storedTransfer ''cosmosX'' ''cosmosY'' 5 0 ''t0'', coinbaseToZ]"

definition forgedChain :: "block list" where
  "forgedChain = [forgedGenesis, newBlock demoExternals 1 (hash forgedGenesis) 7 [coinbaseToM]]"

text \<open>
  A stored chain whose block 0 credits 50 to \<open>cosmosM\<close> and spends 10 and 5 of it, each
  time with change, and whose block 1 holds a coinbase.
\<close>

definition spendingBlock :: block where
  "spendingBlock =
     newBlock demoExternals 0 ''0'' 0
       [coinbaseToM, storedTransfer ''cosmosM'' ''cosmosZ'' 10 0 ''t1'',
        storedTransfer ''cosmosM'' ''cosmosY'' 5 0 ''t2'']"

definition spendingChain :: Blockchain where
  "spendingChain =
     demoChain\<lparr>chain :=
       [spendingBlock, newBlock demoExternals 1 (hash spendingBlock) 7 [coinbaseToN]]\<rparr>"

section \<open>Statements of the specification\<close>

text \<open>
  \<open>specIsValid\<close> follows the specification's words for \<^verbatim>\<open>is_valid()\<close>: a coinbase with a
  positive amount, or a transfer with its fields present, a positive amount, different
  sender and receiver, a signature that recovers to the sender, and a tx id that is the
  hash of the transaction.
\<close>

definition specIsValid :: "externals \<Rightarrow> transaction \<Rightarrow> bool" where
  "specIsValid ext tx =
     ((fromAddress tx = None \<and> amount tx > 0) \<or>
      (\<exists>sender sg publicKey.
         fromAddress tx = Some sender \<and> signature tx = Some sg \<and> sender \<noteq> [] \<and>
         toAddress tx \<noteq> [] \<and> amount tx > 0 \<and> sender \<noteq> toAddress tx \<and>
         recoverPublicKey ext (calculateHash ext tx) sg = Inr publicKey \<and>
         publicKeyToAddress ext publicKey = sender \<and>
         txId tx = calculateHash ext tx))"


text \<open>
  \<open>applyEvery\<close> follows the specification's words for the rebuild: every transaction is
  applied in order. \<open>processedPrefix\<close> is the longest prefix of the transactions that
  \<^verbatim>\<open>processTransaction\<close> accepts one after the other.
\<close>

definition applyEvery :: "transaction list \<Rightarrow> ledger \<Rightarrow> ledger" where
  "applyEvery txs s = foldl (\<lambda>s1 tx. snd (processTransaction tx s1)) s txs"

fun processedPrefix :: "transaction list \<Rightarrow> ledger \<Rightarrow> transaction list" where
  "processedPrefix [] s = []"
| "processedPrefix (tx # txs) s =
     (case processTransaction tx s of
        (Some e, s1) \<Rightarrow> []
      | (None, s1) \<Rightarrow> tx # processedPrefix txs s1)"

text \<open>
  What two ledgers are compared on when clock and random numbers differ: the balances
  and, for every address, the outputs in order, each without its timestamp and, for an
  output with an index other than 0 (a change output), without its tx id.
\<close>

definition erased :: "utxo \<Rightarrow> string \<times> int \<times> nat" where
  "erased x = ((if outputIndex x = 0 then utxo_txId x else []), utxo_amount x, outputIndex x)"

definition visibleLedger ::
    "UTXOSet \<Rightarrow> (string \<rightharpoonup> int) \<times> (string \<rightharpoonup> (string \<times> int \<times> nat) list)" where
  "visibleLedger u = (balances u, \<lambda>a. map_option (map erased) (utxos u a))"

text \<open>
  The synthetic tx ids that a run builds. \<open>changeId tx s\<close> is the id that
  \<^verbatim>\<open>generateTxId\<close> returns while \<open>tx\<close> is processed in the state \<open>s\<close>: none for a coinbase,
  for a rejected transfer and for a transfer without change. \<open>syntheticIds txs s\<close> lists
  the ids of the loop over \<open>txs\<close> in the order they are built.
\<close>

definition changeId :: "transaction \<Rightarrow> ledger \<Rightarrow> string list" where
  "changeId tx s =
     (case fromAddress tx of
        None \<Rightarrow> []
      | Some sender \<Rightarrow>
          (case spendUTXO sender (amount tx + fee tx) s of
             (Inl e, s1) \<Rightarrow> []
           | (Inr spendRes, s1) \<Rightarrow>
               if change spendRes > 0 then [fst (generateTxId (snd s))] else []))"

fun syntheticIds :: "transaction list \<Rightarrow> ledger \<Rightarrow> string list" where
  "syntheticIds [] s = []"
| "syntheticIds (tx # txs) s =
     changeId tx s @
     (case processTransaction tx s of
        (Some e, s1) \<Rightarrow> []
      | (None, s1) \<Rightarrow> syntheticIds txs s1)"

subsection \<open>The relation between two runs of the ledger\<close>

text \<open>
  Two ledgers are \<open>related\<close> under the sets \<open>B1\<close> and \<open>B2\<close> of the synthetic ids built so
  far in either run when their balances are equal and the outputs of every address are
  the two sides of one list of pairs: paired outputs agree up to \<open>erased\<close>, match the
  same outputs under \<^verbatim>\<open>findIndex\<close>, and the id of a change output is among the ids built
  in its run.
\<close>

definition paired :: "string set \<Rightarrow> string set \<Rightarrow> (utxo \<times> utxo) list \<Rightarrow> bool" where
  "paired B1 B2 z =
     ((\<forall>p\<in>set z. erased (fst p) = erased (snd p)) \<and>
      (\<forall>p\<in>set z. \<forall>q\<in>set z. sameOutput (fst p) (fst q) = sameOutput (snd p) (snd q)) \<and>
      (\<forall>p\<in>set z. outputIndex (fst p) \<noteq> 0 \<longrightarrow>
          utxo_txId (fst p) \<in> B1 \<and> utxo_txId (snd p) \<in> B2))"

definition related :: "string set \<Rightarrow> string set \<Rightarrow> UTXOSet \<Rightarrow> UTXOSet \<Rightarrow> bool" where
  "related B1 B2 u1 u2 =
     (balances u1 = balances u2 \<and>
      (\<forall>a. (utxos u1 a = None \<and> utxos u2 a = None) \<or>
           (\<exists>z. utxos u1 a = Some (map fst z) \<and> utxos u2 a = Some (map snd z) \<and>
                paired B1 B2 z)))"

text \<open>The steps of a successful \<^verbatim>\<open>spendUTXO\<close>, named.\<close>

definition afterRemoval :: "UTXOSet \<Rightarrow> string \<Rightarrow> utxo list \<Rightarrow> int \<Rightarrow> UTXOSet" where
  "afterRemoval u a remaining amt =
     (case utxos u a of None \<Rightarrow> u | Some l \<Rightarrow> u\<lparr>utxos := (utxos u)(a \<mapsto> remaining)\<rparr>)
       \<lparr>balances := (balances u)(a \<mapsto> getBalance u a - amt)\<rparr>"

definition afterIdDraw :: "world \<Rightarrow> world" where
  "afterIdDraw w = w\<lparr>clockReads := Suc (clockReads w), randomReads := Suc (randomReads w)\<rparr>"

definition drawnId :: "world \<Rightarrow> string" where
  "drawnId w = toString (clock w (clockReads w)) @ random w (randomReads w)"

section \<open>Properties of the UTXO ledger\<close>

text \<open>
  C1. The claim: after every sequence of ledger operations the cached balance of an
  address is the sum of its unspent outputs. The code at a concrete input: one output
  of 10 is added for \<open>cosmosA\<close> and 3 is spent. \<^verbatim>\<open>spendUTXO\<close> subtracts 3 from the balance
  and then adds the change of 7 through \<^verbatim>\<open>addUTXO\<close>, which adds 7 to the balance again:
  the balance is 14, the only output left is the change of 7.
\<close>

theorem spendUTXO_counts_change_twice:
  "(case spendUTXO ''cosmosA'' 3 (addUTXO ''cosmosA'' ''t1'' 10 0 (emptyUTXOSet, demoWorld)) of
      (r, (u, w)) \<Rightarrow>
        getBalance u ''cosmosA'' = 14 \<and>
        map utxo_amount (getUTXOs u ''cosmosA'') = [7] \<and>
        map outputIndex (getUTXOs u ''cosmosA'') = [1])"
  by code_simp

text \<open>
  In general: a successful \<^verbatim>\<open>spendUTXO\<close> leaves the balance at the old balance minus the
  amount plus the change, when there is change.
\<close>

lemma spendUTXO_balance_effect:
  assumes "spendUTXO a amt (u, w) = (Inr res, (u', w'))"
  shows "getBalance u' a =
           getBalance u a - amt + (if change res > 0 then change res else 0)"
  using assms
  by (auto simp: spendUTXO_def Let_def addUTXO_def dateNow_def generateTxId_def mathRandom_def
        getBalance_def split: if_splits prod.splits option.splits)

text \<open>
  C7. \<^verbatim>\<open>spendUTXO\<close> fails exactly when the recorded balance of the address is below the
  amount, the error is the insufficient-balance error, and the ledger (outputs, balances)
  and the world are then what they were; a transfer whose sender's recorded balance is
  below amount + fee makes \<^verbatim>\<open>processTransaction\<close> raise that error and leave the ledger
  unchanged.
\<close>

theorem spendUTXO_insufficient_funds:
  "((\<exists>e. fst (spendUTXO a m (u, w)) = Inl e) \<longleftrightarrow> getBalance u a < m) \<and>
   (getBalance u a < m \<longrightarrow>
      spendUTXO a m (u, w) = (Inl (InsufficientBalance m (getBalance u a)), (u, w))) \<and>
   (fromAddress tx = Some a \<and> getBalance u a < amount tx + fee tx \<longrightarrow>
      processTransaction tx (u, w) =
        (Some (InsufficientBalance (amount tx + fee tx) (getBalance u a)), (u, w)))"
proof (intro conjI impI)
  show "(\<exists>e. fst (spendUTXO a m (u, w)) = Inl e) \<longleftrightarrow> getBalance u a < m"
    by (simp add: spendUTXO_def Let_def split: prod.splits)
next
  assume "getBalance u a < m"
  then show "spendUTXO a m (u, w) = (Inl (InsufficientBalance m (getBalance u a)), (u, w))"
    by (simp add: spendUTXO_def)
next
  assume h: "fromAddress tx = Some a \<and> getBalance u a < amount tx + fee tx"
  then have "spendUTXO a (amount tx + fee tx) (u, w) =
      (Inl (InsufficientBalance (amount tx + fee tx) (getBalance u a)), (u, w))"
    by (simp add: spendUTXO_def)
  with h show "processTransaction tx (u, w) =
        (Some (InsufficientBalance (amount tx + fee tx) (getBalance u a)), (u, w))"
    by (simp add: processTransaction_def)
qed

theorem spendUTXO_insufficient_funds_witness:
  "getBalance (fst fundedLedger) ''cosmosM'' = 100 \<and>
   spendUTXO ''cosmosM'' 150 fundedLedger = (Inl (InsufficientBalance 150 100), fundedLedger) \<and>
   processTransaction (signedTransfer ''M'' ''cosmosA'' 150 1 5) fundedLedger =
     (Some (InsufficientBalance 151 100), fundedLedger)"
proof -
  have b: "getBalance (fst fundedLedger) ''cosmosM'' = 100"
    by code_simp
  have f: "fromAddress (signedTransfer ''M'' ''cosmosA'' 150 1 5) = Some ''cosmosM''"
    "amount (signedTransfer ''M'' ''cosmosA'' 150 1 5) = 150"
    "fee (signedTransfer ''M'' ''cosmosA'' 150 1 5) = 1"
    by (simp_all add: signedTransfer_def Let_def)
  show ?thesis
    using spendUTXO_insufficient_funds [of "''cosmosM''" 150 "fst fundedLedger"
        "snd fundedLedger" "signedTransfer ''M'' ''cosmosA'' 150 1 5"] b f
    by simp
qed

section \<open>Properties of transaction validation\<close>

text \<open>
  C10. \<^verbatim>\<open>isValid\<close> always returns a boolean: no exception leaves it. A transfer without a
  signature is reported invalid, and so is one for which the recovery of the public key
  raises an exception, whatever the exception is.
\<close>

theorem isValid_never_throws:
  "(\<exists>b. isValid ext tx = Inr b) \<and>
   (fromAddress tx \<noteq> None \<and> signature tx = None \<longrightarrow> isValid ext tx = Inr False) \<and>
   (\<forall>sg e. fromAddress tx \<noteq> None \<and> signature tx = Some sg \<and>
       recoverPublicKey ext (calculateHash ext tx) sg = Inl e \<longrightarrow> isValid ext tx = Inr False)"
  by (auto simp: isValid_def tryCatch_def verifySignature_def Sha256_def
        split: option.splits sum.splits)

theorem isValid_never_throws_witness:
  "recoverPublicKey demoExternals
      (calculateHash demoExternals
         (transferToA\<lparr>signature := Some \<lparr>sig_r = ''zz'', sig_s = ''xyz'', recoveryId = 7\<rparr>\<rparr>))
      \<lparr>sig_r = ''zz'', sig_s = ''xyz'', recoveryId = 7\<rparr> = Inl (LibraryError ''recover'') \<and>
   isValid demoExternals
      (transferToA\<lparr>signature := Some \<lparr>sig_r = ''zz'', sig_s = ''xyz'', recoveryId = 7\<rparr>\<rparr>)
     = Inr False \<and>
   isValid demoExternals (transferToA\<lparr>signature := None\<rparr>) = Inr False"
proof -
  let ?sg = "\<lparr>sig_r = ''zz'', sig_s = ''xyz'', recoveryId = 7\<rparr>"
  let ?tx = "transferToA\<lparr>signature := Some ?sg\<rparr>"
  have r: "recoverPublicKey demoExternals (calculateHash demoExternals ?tx) ?sg =
      Inl (LibraryError ''recover'')"
    by code_simp
  have f: "fromAddress ?tx \<noteq> None" "fromAddress (transferToA\<lparr>signature := None\<rparr>) \<noteq> None"
    by (simp_all add: transferToA_def signedTransfer_def Let_def)
  show ?thesis
    using isValid_never_throws [of demoExternals ?tx]
      isValid_never_throws [of demoExternals "transferToA\<lparr>signature := None\<rparr>"] r f
    by auto
qed

text \<open>
  The call of \<^verbatim>\<open>Sha256\<close> is the first statement of the \<^verbatim>\<open>try\<close> block and throws every
  time, so \<^verbatim>\<open>isValid\<close> is true for a coinbase with a positive amount and for nothing
  else, whatever the library calls return.
\<close>

lemma isValid_coinbase_only:
  "isValid ext tx = Inr True \<longleftrightarrow> fromAddress tx = None \<and> amount tx > 0"
  by (auto simp: isValid_def tryCatch_def verifySignature_def Sha256_def
        split: option.splits sum.splits)

lemma isValid_transfer:
  "fromAddress tx = Some sender \<Longrightarrow> isValid ext tx = Inr False"
  by (auto simp: isValid_def tryCatch_def verifySignature_def Sha256_def
        split: option.splits sum.splits)


text \<open>
  C6. The claim: \<^verbatim>\<open>isValid()\<close> is true exactly for a coinbase with a positive amount and
  for a transfer with its fields present, a positive amount, different sender and
  receiver, a signature that recovers to the sender and a tx id that is the hash of the
  transaction. The code at a concrete input: the transfer of 80 from \<open>cosmosM\<close> to
  \<open>cosmosA\<close> has all of these, with a signature that recovers to \<open>cosmosM\<close> and the hash
  as its tx id. In the \<^verbatim>\<open>try\<close> block \<^verbatim>\<open>Sha256(fromHex(hashTx))\<close> calls a class without
  \<^verbatim>\<open>new\<close> and throws before the recovery is reached; the handler returns false.
\<close>

theorem isValid_rejects_signed_transfer:
  "specIsValid demoExternals transferToA \<and>
   amount transferToA = 80 \<and>
   fromAddress transferToA = Some ''cosmosM'' \<and>
   toAddress transferToA = ''cosmosA'' \<and>
   txId transferToA = calculateHash demoExternals transferToA \<and>
   map_option (\<lambda>sg. recoverPublicKey demoExternals (calculateHash demoExternals transferToA) sg)
     (signature transferToA) = Some (Inr ''M'') \<and>
   publicKeyToAddress demoExternals ''M'' = ''cosmosM'' \<and>
   Sha256 (calculateHash demoExternals transferToA) = Inl TypeError \<and>
   isValid demoExternals transferToA = Inr False"
proof -
  have h: "calculateHash demoExternals transferToA =
      calculateHash demoExternals
        \<lparr>fromAddress = Some ''cosmosM'', toAddress = ''cosmosA'', amount = 80, fee = 0,
         timestamp = 5, signature = None, txId = []\<rparr>"
    by (simp add: transferToA_def signedTransfer_def Let_def calculateHash_def)
  have f: "amount transferToA = 80" "fromAddress transferToA = Some ''cosmosM''"
    "toAddress transferToA = ''cosmosA''"
    "txId transferToA = calculateHash demoExternals transferToA"
    "signature transferToA =
       Some \<lparr>sig_r = ''M'', sig_s = calculateHash demoExternals transferToA, recoveryId = 0\<rparr>"
    unfolding h by (simp_all add: transferToA_def signedTransfer_def Let_def)
  have r: "recoverPublicKey demoExternals (calculateHash demoExternals transferToA)
      \<lparr>sig_r = ''M'', sig_s = calculateHash demoExternals transferToA, recoveryId = 0\<rparr> = Inr ''M''"
    by (simp add: demoExternals_def)
  have p: "publicKeyToAddress demoExternals ''M'' = ''cosmosM''"
    by (simp add: publicKeyToAddress_def demoExternals_def)
  have s: "specIsValid demoExternals transferToA"
    unfolding specIsValid_def using f r p by simp
  have v: "isValid demoExternals transferToA = Inr False"
    using f(2) by (rule isValid_transfer)
  from s f r p v show ?thesis
    by (simp add: Sha256_def)
qed

section \<open>Properties of mining\<close>

text \<open>
  The selection filters each pending transaction against the ledger on its own: every
  selected transaction is pending and affordable alone.
\<close>

lemma selectTransactionsForBlock_each_alone:
  assumes "tx \<in> set (fst (selectTransactionsForBlock bc []))"
  shows "canProcessTransaction (utxoSet bc) tx \<and> tx \<in> set (pendingTransactions bc)"
proof -
  from assms have "tx \<in> set (sort_key (\<lambda>tx. - fee tx)
      (filter (canProcessTransaction (utxoSet bc)) (pendingTransactions bc)))"
    by (auto simp: selectTransactionsForBlock_def Let_def dest: in_set_takeD)
  then show ?thesis by simp
qed

text \<open>
  The pool grows in \<^verbatim>\<open>addTransaction\<close> alone, which asks \<^verbatim>\<open>isValid()\<close> first: it admits no
  transaction with a sender.
\<close>

lemma addTransaction_admits_no_sender:
  assumes "addTransaction ext tx bc = (Inr t, bc')"
  shows "fromAddress tx = None \<and> amount tx > 0 \<and>
         pendingTransactions bc' = pendingTransactions bc @ [tx]"
  using assms
  by (auto simp: addTransaction_def isValid_coinbase_only split: if_splits)









text \<open>
  C5. The claim: the retarget compares the time between the latest block and the block
  10 positions before it. The code at a concrete input: a chain of heights 0 to 10 with
  block 0 at 0 ms, block 1 at 10000 ms and block 10 at 55000 ms. Over the 10 blocks
  before the latest the time is 55000 ms, not under half of the expected 100000 ms, and
  the difficulty would stay 2. \<^verbatim>\<open>adjustDifficulty\<close> reads \<^verbatim>\<open>chain[length - 10]\<close>, the block
  at height 1: it measures 45000 ms and raises the difficulty to 3.
\<close>

theorem adjustDifficulty_measures_nine_blocks:
  "map index elevenBlocks = [0, 1, 2, 3, 4, 5, 6, 7, 8, 9, 10] \<and>
   blockTimestamp (last elevenBlocks) - blockTimestamp (elevenBlocks ! 0) = 55000 \<and>
   blockTimestamp (last elevenBlocks) - blockTimestamp (elevenBlocks ! 1) = 45000 \<and>
   difficulty demoChain = 2 \<and>
   map_sum id difficulty (adjustDifficulty (demoChain\<lparr>chain := elevenBlocks\<rparr>)) = Inr 3"
  by code_simp

text \<open>
  In general, for the interval of 10 blocks and the block time of 10000 ms: the retarget
  acts only at a height that is a nonzero multiple of 10, compares the time since the
  block at position \<open>length - 10\<close> with 50000 ms and 200000 ms, and moves the difficulty
  by one, never below 1.
\<close>

lemma adjustDifficulty_effect:
  assumes "chain bc \<noteq> []" and "difficultyAdjustmentInterval bc = 10" and "blockTime bc = 10000"
    and "10 \<le> length (chain bc)"
  shows "adjustDifficulty bc =
     Inr (if index (last (chain bc)) mod 10 \<noteq> 0 \<or> index (last (chain bc)) = 0 then bc
          else if blockTimestamp (last (chain bc)) -
                    blockTimestamp (chain bc ! (length (chain bc) - 10)) < 50000
          then bc\<lparr>difficulty := difficulty bc + 1\<rparr>
          else if blockTimestamp (last (chain bc)) -
                    blockTimestamp (chain bc ! (length (chain bc) - 10)) > 200000
          then bc\<lparr>difficulty := max 1 (difficulty bc - 1)\<rparr>
          else bc)"
proof -
  have "at (chain bc) (int (length (chain bc)) - 10) =
      Some (chain bc ! (length (chain bc) - 10))"
    using assms(1,4) by (simp add: at_def nat_diff_distrib')
  with assms show ?thesis
    by (simp add: adjustDifficulty_def getLatestBlock_def Let_def)
qed

section \<open>Properties of peer gossip\<close>

text \<open>
  C4. The claim: after a block is appended, by the miner or from gossip, no pending
  transaction has a tx id of that block. The code at a concrete input: the pool holds
  the transaction \<open>c1\<close> for \<open>cosmosM\<close>, and a peer announces a valid next block that
  carries it. \<^verbatim>\<open>handleNewBlock\<close> appends the block and updates the ledger, and never calls
  \<^verbatim>\<open>removePendingTransactions\<close>: the transaction is in the chain and still in the pool.
\<close>

theorem handleNewBlock_keeps_pending:
  "(case handleMessage demoExternals ''ws://p:6001'' (NEW_BLOCK gossipBlock)
          (demoNetwork, snd fundedLedger) of
      (net, w) \<Rightarrow>
        chain (blockchain net) = [genesisBlock, gossipBlock] \<and>
        transactions gossipBlock = [coinbaseToM] \<and>
        pendingTransactions (blockchain net) = [coinbaseToM, coinbaseToN] \<and>
        map txId (transactions gossipBlock) = [''c1''] \<and>
        map txId (pendingTransactions (blockchain net)) = [''c1'', ''c2''])"
  by code_simp

text \<open>
  In general: neither gossip handler that appends a block touches the pool, while
  \<^verbatim>\<open>removePendingTransactions\<close>, which \<^verbatim>\<open>mineBlock\<close> calls, removes every pending
  transaction with a non-empty tx id of the block.
\<close>

lemma handleNewBlock_pending:
  "pendingTransactions (blockchain (fst (handleNewBlock ext nb (net, w)))) =
     pendingTransactions (blockchain net)"
  by (auto simp: handleNewBlock_def Let_def broadcastMessage_def blockFromJSON_def
        split: option.splits prod.splits)

lemma handleReceiveLatestBlock_pending:
  "pendingTransactions (blockchain (fst (handleReceiveLatestBlock ext b (net, w)))) =
     pendingTransactions (blockchain net)"
  by (auto simp: handleReceiveLatestBlock_def Let_def broadcastMessage_def blockFromJSON_def
        split: option.splits prod.splits)

lemma removePendingTransactions_removes:
  assumes "tx \<in> set (pendingTransactions (removePendingTransactions processed bc))"
    and "txId tx \<noteq> []"
  shows "txId tx \<notin> txId ` set processed"
  using assms
  by (auto simp: removePendingTransactions_def Let_def)

text \<open>
  C8. The claim: an accepted \<^verbatim>\<open>NEW_TRANSACTION\<close> or \<^verbatim>\<open>NEW_BLOCK\<close> is sent on to every peer
  but the one it came from. The code at a concrete input: two open peers, and the first
  sends a transaction that is accepted. \<^verbatim>\<open>handleNewTransaction\<close> is not given the sender;
  it passes the tx id as the id to exclude, which is no peer's id, and the message goes
  to both peers, the sender first.
\<close>

theorem handleNewTransaction_echoes_to_sender:
  "(case handleMessage demoExternals ''ws://p:6001'' (NEW_TRANSACTION coinbaseToM)
          (demoNetwork\<lparr>blockchain := demoChain\<lparr>pendingTransactions := []\<rparr>\<rparr>, snd fundedLedger) of
      (net, w) \<Rightarrow>
        pendingTransactions (blockchain net) = [coinbaseToM] \<and>
        sent net =
          [(''ws://p:6001'', NEW_TRANSACTION coinbaseToM),
           (''ws://q:6001'', NEW_TRANSACTION coinbaseToM)])"
  by code_simp

text \<open>
  In general: an id to exclude that is no peer's id excludes nobody, and the message
  goes to every open peer.
\<close>

lemma broadcastTo_no_peer_excluded:
  assumes "h \<notin> fst ` set ps"
  shows "broadcastTo msg (Some h) ps = broadcastTo msg None ps"
  using assms by (induction ps) (auto simp: excluded_def)

lemma broadcastTo_all_open:
  "broadcastTo msg None ps =
     map (\<lambda>p. (fst p, msg)) (filter (\<lambda>p. readyState (snd p) = OPEN) ps)"
  by (induction ps) (auto simp: excluded_def)

section \<open>Chain replacement\<close>

lemma isValidChain_adjacent:
  "isValidChain ext bc c \<longleftrightarrow>
     (\<forall>i. 0 < i \<and> i < length c \<longrightarrow> isValidNewBlock ext bc (c ! i) (c ! (i - 1)))"
proof (induction ext bc c rule: isValidChain.induct)
  case (1 ext bc p cur rest)
  have "(\<forall>i. 0 < i \<and> i < length (p # cur # rest) \<longrightarrow>
            isValidNewBlock ext bc ((p # cur # rest) ! i) ((p # cur # rest) ! (i - 1))) \<longleftrightarrow>
        isValidNewBlock ext bc cur p \<and>
        (\<forall>i. 0 < i \<and> i < length (cur # rest) \<longrightarrow>
            isValidNewBlock ext bc ((cur # rest) ! i) ((cur # rest) ! (i - 1)))"
    (is "?L \<longleftrightarrow> ?A \<and> ?R")
  proof
    assume l: ?L
    have a: ?A using l [rule_format, of 1] by simp
    have r: ?R
    proof (intro allI impI)
      fix i assume "0 < i \<and> i < length (cur # rest)"
      then show "isValidNewBlock ext bc ((cur # rest) ! i) ((cur # rest) ! (i - 1))"
        using l [rule_format, of "Suc i"] by simp
    qed
    from a r show "?A \<and> ?R" ..
  next
    assume ar: "?A \<and> ?R"
    show ?L
    proof (intro allI impI)
      fix i assume i: "0 < i \<and> i < length (p # cur # rest)"
      show "isValidNewBlock ext bc ((p # cur # rest) ! i) ((p # cur # rest) ! (i - 1))"
      proof (cases "i = 1")
        case True
        with ar show ?thesis by simp
      next
        case False
        with i obtain j where j: "i = Suc j" "0 < j" "j < length (cur # rest)"
          by (cases i) auto
        with ar have "isValidNewBlock ext bc ((cur # rest) ! j) ((cur # rest) ! (j - 1))"
          by blast
        with j show ?thesis by simp
      qed
    qed
  qed
  with 1 show ?case by auto
qed auto

lemma processTransaction_failure_unchanged:
  "processTransaction tx s = (Some e, s1) \<Longrightarrow> s1 = s"
  by (cases s)
     (auto simp: processTransaction_def spendUTXO_def Let_def
           split: option.splits prod.splits sum.splits if_splits)

lemma processTransactions_append:
  "processTransactions (xs @ ys) s =
     (case processTransactions xs s of
        (Some e, s1) \<Rightarrow> (Some e, s1)
      | (None, s1) \<Rightarrow> processTransactions ys s1)"
  by (induction xs arbitrary: s) (auto split: prod.splits option.splits)

lemma processBlocks_concat:
  "processBlocks bs s = processTransactions (concat (map transactions bs)) s"
  by (induction bs arbitrary: s)
     (auto simp: processTransactions_append split: prod.splits option.splits)

lemma processTransactions_prefix:
  "snd (processTransactions txs s) = applyEvery (processedPrefix txs s) s"
proof (induction txs arbitrary: s)
  case Nil
  show ?case by (simp add: applyEvery_def)
next
  case (Cons tx txs)
  obtain r s1 where p: "processTransaction tx s = (r, s1)" by (cases "processTransaction tx s")
  show ?case
  proof (cases r)
    case None
    with p Cons [of s1] show ?thesis by (simp add: applyEvery_def)
  next
    case (Some e)
    with p have "s1 = s" by (simp add: processTransaction_failure_unchanged)
    with p Some show ?thesis by (simp add: applyEvery_def)
  qed
qed

text \<open>
  C3, as amended. \<^verbatim>\<open>replaceChain\<close> reports success exactly when the candidate is strictly
  longer than the local chain and every adjacent pair of its blocks passes
  \<^verbatim>\<open>isValidNewBlock\<close>. On success the chain is the candidate, nothing but chain and
  ledger changes, and the ledger is the cleared one with the transactions of the
  candidate applied in order up to the first one that \<^verbatim>\<open>processTransaction\<close> rejects:
  all of them when none is rejected. Otherwise chain, ledger and world are unchanged.
\<close>

theorem replaceChain_spec:
  assumes "replaceChain ext c (bc, w) = (ok, (bc', w'))"
  shows "(ok \<longleftrightarrow> length (chain bc) < length c \<and>
            (\<forall>i. 0 < i \<and> i < length c \<longrightarrow> isValidNewBlock ext bc (c ! i) (c ! (i - 1)))) \<and>
         (ok \<longrightarrow> chain bc' = c \<and> bc' = bc\<lparr>chain := c, utxoSet := utxoSet bc'\<rparr> \<and>
            (utxoSet bc', w') =
              applyEvery (processedPrefix (concat (map transactions c)) (clear (utxoSet bc), w))
                (clear (utxoSet bc), w)) \<and>
         (ok \<and> processedPrefix (concat (map transactions c)) (clear (utxoSet bc), w) =
                 concat (map transactions c) \<longrightarrow>
            (utxoSet bc', w') = applyEvery (concat (map transactions c)) (clear (utxoSet bc), w)) \<and>
         (\<not> ok \<longrightarrow> bc' = bc \<and> w' = w)"
proof -
  let ?txs = "concat (map transactions c)"
  let ?s0 = "(clear (utxoSet bc), w)"
  let ?cond = "length (chain bc) < length c \<and> isValidChain ext bc c"
  have ok: "ok \<longleftrightarrow> ?cond"
    using assms by (auto simp: replaceChain_def split: if_splits prod.splits)
  have fail: "\<not> ok \<longrightarrow> bc' = bc \<and> w' = w"
    using assms by (auto simp: replaceChain_def split: if_splits prod.splits)
  have succ: "ok \<longrightarrow> chain bc' = c \<and> bc' = bc\<lparr>chain := c, utxoSet := utxoSet bc'\<rparr> \<and>
      (utxoSet bc', w') = snd (processTransactions ?txs ?s0)"
    using assms
    by (auto simp: replaceChain_def rebuildUTXOSet_def processBlocks_concat
             split: if_splits prod.splits)
  from ok fail succ show ?thesis
    by (auto simp: isValidChain_adjacent processTransactions_prefix)
qed

theorem replaceChain_spec_witness:
  "fst (replaceChain demoExternals [genesisBlock, gossipBlock] (demoChain, demoWorld)) \<and>
   length (chain demoChain) < length [genesisBlock, gossipBlock] \<and>
   isValidNewBlock demoExternals demoChain gossipBlock genesisBlock \<and>
   processedPrefix (concat (map transactions [genesisBlock, gossipBlock]))
       (clear (utxoSet demoChain), demoWorld) = [coinbaseToM] \<and>
   chain (fst (snd (replaceChain demoExternals [genesisBlock, gossipBlock]
                      (demoChain, demoWorld)))) = [genesisBlock, gossipBlock] \<and>
   utxoSet (fst (snd (replaceChain demoExternals [genesisBlock, gossipBlock]
                        (demoChain, demoWorld)))) =
     fst (applyEvery [coinbaseToM] (clear (utxoSet demoChain), demoWorld)) \<and>
   getBalance (utxoSet (fst (snd (replaceChain demoExternals [genesisBlock, gossipBlock]
                        (demoChain, demoWorld))))) ''cosmosM'' = 50 \<and>
   \<not> fst (replaceChain demoExternals [gossipBlock] (demoChain, demoWorld)) \<and>
   snd (replaceChain demoExternals [gossipBlock] (demoChain, demoWorld)) = (demoChain, demoWorld)"
proof -
  let ?r = "replaceChain demoExternals [genesisBlock, gossipBlock] (demoChain, demoWorld)"
  let ?q = "replaceChain demoExternals [gossipBlock] (demoChain, demoWorld)"
  have e: "?r = (fst ?r, (fst (snd ?r), snd (snd ?r)))" by simp
  have e2: "?q = (fst ?q, (fst (snd ?q), snd (snd ?q)))" by simp
  have t: "fst ?r" by code_simp
  have n: "\<not> fst ?q" by code_simp
  have v: "isValidNewBlock demoExternals demoChain gossipBlock genesisBlock" by code_simp
  have l: "length (chain demoChain) < length [genesisBlock, gossipBlock]" by code_simp
  have p: "processedPrefix (concat (map transactions [genesisBlock, gossipBlock]))
       (clear (utxoSet demoChain), demoWorld) = [coinbaseToM]"
    by code_simp
  have g: "getBalance (utxoSet (fst (snd ?r))) ''cosmosM'' = 50" by code_simp
  from replaceChain_spec [OF e] t p
  have "chain (fst (snd ?r)) = [genesisBlock, gossipBlock]"
    and "(utxoSet (fst (snd ?r)), snd (snd ?r)) =
      applyEvery [coinbaseToM] (clear (utxoSet demoChain), demoWorld)"
    by simp_all
  then have c: "chain (fst (snd ?r)) = [genesisBlock, gossipBlock]"
    and u: "utxoSet (fst (snd ?r)) =
      fst (applyEvery [coinbaseToM] (clear (utxoSet demoChain), demoWorld))"
    by (simp_all add: prod_eq_iff)
  from replaceChain_spec [OF e2] n
  have "fst (snd ?q) = demoChain \<and> snd (snd ?q) = demoWorld"
    by simp
  then have s: "snd ?q = (demoChain, demoWorld)"
    by (simp add: prod_eq_iff)
  from t l v p c u g n s show ?thesis by simp
qed

text \<open>
  The claim as stated has every transaction of the new chain applied on every success.
  \<^verbatim>\<open>isValidChain\<close> starts at the second block and so never looks into block 0 of the
  candidate. In this candidate block 0 holds a transfer of 5 from \<open>cosmosX\<close>, which owns
  nothing, followed by a coinbase of 10 for \<open>cosmosZ\<close>, and block 1 holds a coinbase of
  50 for \<open>cosmosM\<close>. \<^verbatim>\<open>replaceChain\<close> reports success; the rebuild ends at the transfer,
  and neither coinbase is applied.
\<close>

theorem replaceChain_stops_at_failing_transaction:
  "fst (replaceChain demoExternals forgedChain (demoChain, demoWorld)) \<and>
   chain (fst (snd (replaceChain demoExternals forgedChain (demoChain, demoWorld)))) =
     forgedChain \<and>
   map (map toAddress \<circ> transactions) forgedChain = [[''cosmosY'', ''cosmosZ''], [''cosmosM'']] \<and>
   processedPrefix (concat (map transactions forgedChain))
     (clear (utxoSet demoChain), demoWorld) = [] \<and>
   map (getBalance (utxoSet (fst (snd (replaceChain demoExternals forgedChain
                                         (demoChain, demoWorld))))))
     [''cosmosZ'', ''cosmosM''] = [0, 0] \<and>
   map (getBalance (fst (applyEvery (concat (map transactions forgedChain))
                           (clear (utxoSet demoChain), demoWorld))))
     [''cosmosZ'', ''cosmosM''] = [10, 50] \<and>
   utxoSet (fst (snd (replaceChain demoExternals forgedChain (demoChain, demoWorld)))) \<noteq>
     fst (applyEvery (concat (map transactions forgedChain))
            (clear (utxoSet demoChain), demoWorld))"
proof -
  let ?rebuilt = "utxoSet (fst (snd (replaceChain demoExternals forgedChain
                                       (demoChain, demoWorld))))"
  let ?folded = "fst (applyEvery (concat (map transactions forgedChain))
                        (clear (utxoSet demoChain), demoWorld))"
  have ok: "fst (replaceChain demoExternals forgedChain (demoChain, demoWorld))"
    by code_simp
  have c: "chain (fst (snd (replaceChain demoExternals forgedChain (demoChain, demoWorld)))) =
     forgedChain"
    by code_simp
  have m: "map (map toAddress \<circ> transactions) forgedChain =
      [[''cosmosY'', ''cosmosZ''], [''cosmosM'']]"
    by code_simp
  have p: "processedPrefix (concat (map transactions forgedChain))
     (clear (utxoSet demoChain), demoWorld) = []"
    by code_simp
  have a: "map (getBalance ?rebuilt) [''cosmosZ'', ''cosmosM''] = [0, 0]"
    by code_simp
  have b: "map (getBalance ?folded) [''cosmosZ'', ''cosmosM''] = [10, 50]"
    by code_simp
  from a b have "?rebuilt \<noteq> ?folded"
    by auto
  with ok c m p a b show ?thesis
    by simp
qed

section \<open>Determinism of the rebuild\<close>

subsection \<open>Sorting, selecting and removing in two runs\<close>

lemma insort_key_map:
  "map h (insort_key (\<lambda>a. k (h a)) x xs) = insort_key k (h x) (map h xs)"
  by (induction xs) auto

lemma sort_key_map: "map h (sort_key (\<lambda>a. k (h a)) xs) = sort_key k (map h xs)"
  by (induction xs) (auto simp: insort_key_map)

lemma insort_key_cong_set:
  "f x = g x \<Longrightarrow> (\<forall>y\<in>set ys. f y = g y) \<Longrightarrow> insort_key f x ys = insort_key g x ys"
  by (induction ys) auto

lemma sort_key_cong_set: "(\<forall>x\<in>set xs. f x = g x) \<Longrightarrow> sort_key f xs = sort_key g xs"
proof (induction xs)
  case Nil
  show ?case by simp
next
  case (Cons x xs)
  then have "sort_key f xs = sort_key g xs" by simp
  moreover from Cons.prems have "insort_key f x (sort_key g xs) = insort_key g x (sort_key g xs)"
    by (intro insort_key_cong_set) simp_all
  ultimately show ?case by simp
qed

lemma sort_paired:
  assumes "\<forall>p\<in>set z. k (fst p) = k (snd p)"
  shows "\<exists>S. set S = set z \<and> sort_key k (map fst z) = map fst S \<and> sort_key k (map snd z) = map snd S"
proof -
  let ?S = "sort_key (\<lambda>p. k (fst p)) z"
  have "sort_key (\<lambda>p. k (fst p)) z = sort_key (\<lambda>p. k (snd p)) z"
    using assms by (intro sort_key_cong_set) simp
  then have "map snd ?S = sort_key k (map snd z)"
    by (simp add: sort_key_map)
  moreover have "map fst ?S = sort_key k (map fst z)"
    by (simp add: sort_key_map)
  ultimately show ?thesis
    by (intro exI [of _ ?S]) simp
qed

lemma selectLargest_paired:
  "\<forall>p\<in>set zs. utxo_amount (fst p) = utxo_amount (snd p) \<Longrightarrow>
   \<exists>T tot'. set T \<subseteq> set acc \<union> set zs \<and>
      selectLargest amt (map fst zs) (map fst acc, tot) = (map fst T, tot') \<and>
      selectLargest amt (map snd zs) (map snd acc, tot) = (map snd T, tot')"
proof (induction zs arbitrary: acc tot)
  case Nil
  show ?case by (intro exI [of _ acc] exI [of _ tot]) simp
next
  case (Cons p zs)
  show ?case
  proof (cases "amt \<le> tot")
    case True
    then show ?thesis by (intro exI [of _ acc] exI [of _ tot]) auto
  next
    case False
    from Cons.prems have eq: "utxo_amount (fst p) = utxo_amount (snd p)"
      and rest: "\<forall>q\<in>set zs. utxo_amount (fst q) = utxo_amount (snd q)" by simp_all
    from Cons.IH [OF rest, of "acc @ [p]" "tot + utxo_amount (fst p)"]
    obtain T tot' where T: "set T \<subseteq> set (acc @ [p]) \<union> set zs"
      "selectLargest amt (map fst zs) (map fst (acc @ [p]), tot + utxo_amount (fst p)) = (map fst T, tot')"
      "selectLargest amt (map snd zs) (map snd (acc @ [p]), tot + utxo_amount (fst p)) = (map snd T, tot')"
      by blast
    with False eq show ?thesis
      by (intro exI [of _ T] exI [of _ tot']) auto
  qed
qed

lemma removeSpent_paired:
  "\<forall>p\<in>set z. sameOutput x1 (fst p) = sameOutput x2 (snd p) \<Longrightarrow>
   \<exists>z'. set z' \<subseteq> set z \<and> removeSpent x1 (map fst z) = map fst z' \<and>
        removeSpent x2 (map snd z) = map snd z'"
proof (induction z)
  case Nil
  show ?case by (intro exI [of _ "[]"]) simp
next
  case (Cons p z)
  show ?case
  proof (cases "sameOutput x1 (fst p)")
    case True
    with Cons.prems have "sameOutput x2 (snd p)" by simp
    with True show ?thesis by (intro exI [of _ z]) auto
  next
    case False
    with Cons.prems have n: "\<not> sameOutput x2 (snd p)" by simp
    from Cons obtain z' where "set z' \<subseteq> set z" "removeSpent x1 (map fst z) = map fst z'"
      "removeSpent x2 (map snd z) = map snd z'" by auto
    with False n show ?thesis by (intro exI [of _ "p # z'"]) auto
  qed
qed

lemma removeAll_paired:
  assumes compat: "\<forall>p\<in>Z. \<forall>q\<in>Z. sameOutput (fst p) (fst q) = sameOutput (snd p) (snd q)"
  shows "set T \<subseteq> Z \<Longrightarrow> set z \<subseteq> Z \<Longrightarrow>
     \<exists>z'. set z' \<subseteq> set z \<and>
        foldl (\<lambda>l spent. removeSpent spent l) (map fst z) (map fst T) = map fst z' \<and>
        foldl (\<lambda>l spent. removeSpent spent l) (map snd z) (map snd T) = map snd z'"
proof (induction T arbitrary: z)
  case Nil
  show ?case by (intro exI [of _ z]) simp
next
  case (Cons x T)
  from Cons.prems compat have "\<forall>p\<in>set z. sameOutput (fst x) (fst p) = sameOutput (snd x) (snd p)"
    by auto
  from removeSpent_paired [OF this] obtain z1 where z1: "set z1 \<subseteq> set z"
    "removeSpent (fst x) (map fst z) = map fst z1" "removeSpent (snd x) (map snd z) = map snd z1"
    by blast
  from Cons.prems z1 have "set T \<subseteq> Z" "set z1 \<subseteq> Z" by auto
  from Cons.IH [OF this] obtain z' where "set z' \<subseteq> set z1"
    "foldl (\<lambda>l spent. removeSpent spent l) (map fst z1) (map fst T) = map fst z'"
    "foldl (\<lambda>l spent. removeSpent spent l) (map snd z1) (map snd T) = map snd z'" by blast
  with z1 show ?case by (intro exI [of _ z']) auto
qed

subsection \<open>Related ledgers\<close>

lemma paired_mono:
  "B1 \<subseteq> C1 \<Longrightarrow> B2 \<subseteq> C2 \<Longrightarrow> paired B1 B2 z \<Longrightarrow> paired C1 C2 z"
  unfolding paired_def by blast

lemma paired_subset: "set z' \<subseteq> set z \<Longrightarrow> paired B1 B2 z \<Longrightarrow> paired B1 B2 z'"
  unfolding paired_def by (meson subsetD)

lemma paired_Nil: "paired B1 B2 []"
  by (simp add: paired_def)

lemma relatedI:
  assumes "balances u1 = balances u2"
    and "\<And>a. (utxos u1 a = None \<and> utxos u2 a = None) \<or>
           (\<exists>z. utxos u1 a = Some (map fst z) \<and> utxos u2 a = Some (map snd z) \<and>
                paired B1 B2 z)"
  shows "related B1 B2 u1 u2"
  using assms by (simp add: related_def)

lemma relatedD:
  assumes "related B1 B2 u1 u2"
  shows "balances u1 = balances u2"
    and "(utxos u1 a = None \<and> utxos u2 a = None) \<or>
           (\<exists>z. utxos u1 a = Some (map fst z) \<and> utxos u2 a = Some (map snd z) \<and>
                paired B1 B2 z)"
  using assms by (simp_all add: related_def)

lemma related_mono:
  assumes "B1 \<subseteq> C1" "B2 \<subseteq> C2" "related B1 B2 u1 u2"
  shows "related C1 C2 u1 u2"
proof (rule relatedI)
  show "balances u1 = balances u2" using assms(3) by (rule relatedD)
next
  fix a
  from relatedD(2) [OF assms(3), of a]
  show "(utxos u1 a = None \<and> utxos u2 a = None) \<or>
           (\<exists>z. utxos u1 a = Some (map fst z) \<and> utxos u2 a = Some (map snd z) \<and>
                paired C1 C2 z)"
    using paired_mono [OF assms(1,2)] by blast
qed

lemma related_outputs:
  assumes "related B1 B2 u1 u2"
  shows "\<exists>z. getUTXOs u1 a = map fst z \<and> getUTXOs u2 a = map snd z \<and> paired B1 B2 z \<and>
             (utxos u1 a = None \<longleftrightarrow> utxos u2 a = None)"
proof -
  from assms have "(utxos u1 a = None \<and> utxos u2 a = None) \<or>
      (\<exists>z. utxos u1 a = Some (map fst z) \<and> utxos u2 a = Some (map snd z) \<and> paired B1 B2 z)"
    by (simp add: related_def)
  then show ?thesis
  proof
    assume "utxos u1 a = None \<and> utxos u2 a = None"
    then show ?thesis
      by (intro exI [of _ "[]"]) (simp add: getUTXOs_def paired_Nil)
  next
    assume "\<exists>z. utxos u1 a = Some (map fst z) \<and> utxos u2 a = Some (map snd z) \<and> paired B1 B2 z"
    then obtain z where "utxos u1 a = Some (map fst z)" "utxos u2 a = Some (map snd z)"
      "paired B1 B2 z" by blast
    then show ?thesis
      by (intro exI [of _ z]) (simp add: getUTXOs_def)
  qed
qed

lemma related_balance: "related B1 B2 u1 u2 \<Longrightarrow> getBalance u1 a = getBalance u2 a"
  by (simp add: related_def getBalance_def)

lemma related_store:
  assumes "related B1 B2 u1 u2" and "paired B1 B2 z"
  shows "related B1 B2
           (u1\<lparr>utxos := (utxos u1)(a \<mapsto> map fst z), balances := (balances u1)(a \<mapsto> b)\<rparr>)
           (u2\<lparr>utxos := (utxos u2)(a \<mapsto> map snd z), balances := (balances u2)(a \<mapsto> b)\<rparr>)"
proof (rule relatedI)
  show "balances (u1\<lparr>utxos := (utxos u1)(a \<mapsto> map fst z), balances := (balances u1)(a \<mapsto> b)\<rparr>) =
        balances (u2\<lparr>utxos := (utxos u2)(a \<mapsto> map snd z), balances := (balances u2)(a \<mapsto> b)\<rparr>)"
    using relatedD(1) [OF assms(1)] by simp
next
  fix c
  show "(utxos (u1\<lparr>utxos := (utxos u1)(a \<mapsto> map fst z), balances := (balances u1)(a \<mapsto> b)\<rparr>) c = None \<and>
         utxos (u2\<lparr>utxos := (utxos u2)(a \<mapsto> map snd z), balances := (balances u2)(a \<mapsto> b)\<rparr>) c = None) \<or>
        (\<exists>y. utxos (u1\<lparr>utxos := (utxos u1)(a \<mapsto> map fst z), balances := (balances u1)(a \<mapsto> b)\<rparr>) c = Some (map fst y) \<and>
             utxos (u2\<lparr>utxos := (utxos u2)(a \<mapsto> map snd z), balances := (balances u2)(a \<mapsto> b)\<rparr>) c = Some (map snd y) \<and>
             paired B1 B2 y)"
  proof (cases "c = a")
    case True
    with assms(2) show ?thesis by auto
  next
    case False
    with relatedD(2) [OF assms(1), of c] show ?thesis by simp
  qed
qed

lemma related_balance_only:
  assumes "related B1 B2 u1 u2"
  shows "related B1 B2 (u1\<lparr>balances := (balances u1)(a \<mapsto> b)\<rparr>)
                       (u2\<lparr>balances := (balances u2)(a \<mapsto> b)\<rparr>)"
proof (rule relatedI)
  show "balances (u1\<lparr>balances := (balances u1)(a \<mapsto> b)\<rparr>) =
        balances (u2\<lparr>balances := (balances u2)(a \<mapsto> b)\<rparr>)"
    using relatedD(1) [OF assms] by simp
next
  fix c
  from relatedD(2) [OF assms, of c]
  show "(utxos (u1\<lparr>balances := (balances u1)(a \<mapsto> b)\<rparr>) c = None \<and>
         utxos (u2\<lparr>balances := (balances u2)(a \<mapsto> b)\<rparr>) c = None) \<or>
        (\<exists>y. utxos (u1\<lparr>balances := (balances u1)(a \<mapsto> b)\<rparr>) c = Some (map fst y) \<and>
             utxos (u2\<lparr>balances := (balances u2)(a \<mapsto> b)\<rparr>) c = Some (map snd y) \<and>
             paired B1 B2 y)"
    by simp
qed

lemma addUTXO_eq:
  "addUTXO a tid amt oi (u, w) =
     (u\<lparr>utxos := (utxos u)(a \<mapsto> getUTXOs u a @
            [\<lparr>utxo_txId = tid, utxo_amount = amt, outputIndex = oi,
              utxo_timestamp = clock w (clockReads w)\<rparr>]),
        balances := (balances u)(a \<mapsto> getBalance u a + amt)\<rparr>,
      w\<lparr>clockReads := Suc (clockReads w)\<rparr>)"
  by (simp add: addUTXO_def dateNow_def Let_def getBalance_def)

lemma paired_snoc:
  assumes z: "paired B1 B2 z"
    and e: "utxo_amount x1 = utxo_amount x2" "outputIndex x1 = outputIndex x2"
    and k: "(outputIndex x1 = 0 \<and> utxo_txId x1 = utxo_txId x2) \<or>
            (outputIndex x1 \<noteq> 0 \<and> utxo_txId x1 \<in> B1 \<and> utxo_txId x2 \<in> B2 \<and>
             (\<forall>p\<in>set z. outputIndex (fst p) \<noteq> 0 \<longrightarrow>
                 utxo_txId (fst p) \<noteq> utxo_txId x1 \<and> utxo_txId (snd p) \<noteq> utxo_txId x2))"
  shows "paired B1 B2 (z @ [(x1, x2)])"
proof -
  have er: "erased x1 = erased x2"
    using e k by (auto simp: erased_def)
  have old: "\<forall>p\<in>set z. erased (fst p) = erased (snd p)"
    using z by (simp add: paired_def)
  have idx: "\<forall>p\<in>set z. outputIndex (fst p) = outputIndex (snd p)"
    using old by (auto simp: erased_def)
  have tid: "\<forall>p\<in>set z. outputIndex (fst p) = 0 \<longrightarrow> utxo_txId (fst p) = utxo_txId (snd p)"
    using old by (auto simp: erased_def split: if_splits)
  have c1: "\<forall>p\<in>set z. sameOutput (fst p) x1 = sameOutput (snd p) x2"
    using k e idx tid unfolding sameOutput_def by (metis)
  have c2: "\<forall>p\<in>set z. sameOutput x1 (fst p) = sameOutput x2 (snd p)"
    using k e idx tid unfolding sameOutput_def by (metis)
  have c3: "sameOutput x1 x1 = sameOutput x2 x2"
    by (simp add: sameOutput_def)
  have prov: "outputIndex x1 \<noteq> 0 \<longrightarrow> utxo_txId x1 \<in> B1 \<and> utxo_txId x2 \<in> B2"
    using k by auto
  show ?thesis
    using z er c1 c2 c3 prov unfolding paired_def by auto
qed

lemma addUTXO_related:
  assumes r: "related B1 B2 u1 u2"
    and k: "(oi = 0 \<and> tid1 = tid2) \<or>
            (oi \<noteq> 0 \<and> tid1 \<in> B1 \<and> tid2 \<in> B2 \<and>
             (\<forall>x\<in>set (getUTXOs u1 a). outputIndex x \<noteq> 0 \<longrightarrow> utxo_txId x \<noteq> tid1) \<and>
             (\<forall>x\<in>set (getUTXOs u2 a). outputIndex x \<noteq> 0 \<longrightarrow> utxo_txId x \<noteq> tid2))"
  shows "related B1 B2 (fst (addUTXO a tid1 amt oi (u1, w1))) (fst (addUTXO a tid2 amt oi (u2, w2)))"
proof -
  from related_outputs [OF r, of a] obtain z where z: "getUTXOs u1 a = map fst z"
    "getUTXOs u2 a = map snd z" "paired B1 B2 z" by blast
  let ?x1 = "\<lparr>utxo_txId = tid1, utxo_amount = amt, outputIndex = oi,
              utxo_timestamp = clock w1 (clockReads w1)\<rparr>"
  let ?x2 = "\<lparr>utxo_txId = tid2, utxo_amount = amt, outputIndex = oi,
              utxo_timestamp = clock w2 (clockReads w2)\<rparr>"
  have idx: "\<forall>p\<in>set z. outputIndex (fst p) = outputIndex (snd p)"
    using z(3) by (auto simp: paired_def erased_def)
  have "paired B1 B2 (z @ [(?x1, ?x2)])"
  proof (rule paired_snoc [OF z(3)])
    show "utxo_amount ?x1 = utxo_amount ?x2" "outputIndex ?x1 = outputIndex ?x2" by simp_all
    show "(outputIndex ?x1 = 0 \<and> utxo_txId ?x1 = utxo_txId ?x2) \<or>
            (outputIndex ?x1 \<noteq> 0 \<and> utxo_txId ?x1 \<in> B1 \<and> utxo_txId ?x2 \<in> B2 \<and>
             (\<forall>p\<in>set z. outputIndex (fst p) \<noteq> 0 \<longrightarrow>
                 utxo_txId (fst p) \<noteq> utxo_txId ?x1 \<and> utxo_txId (snd p) \<noteq> utxo_txId ?x2))"
      using k z(1,2) idx by auto
  qed
  from related_store [OF r this, of a "getBalance u1 a + amt"]
  have "related B1 B2
     (u1\<lparr>utxos := (utxos u1)(a \<mapsto> getUTXOs u1 a @ [?x1]),
          balances := (balances u1)(a \<mapsto> getBalance u1 a + amt)\<rparr>)
     (u2\<lparr>utxos := (utxos u2)(a \<mapsto> getUTXOs u2 a @ [?x2]),
          balances := (balances u2)(a \<mapsto> getBalance u2 a + amt)\<rparr>)"
    using z(1,2) related_balance [OF r, of a] by simp
  then show ?thesis
    by (simp add: addUTXO_eq)
qed

subsection \<open>Spending in two runs\<close>

lemma spendUTXO_fails:
  "getBalance u a < amt \<Longrightarrow>
   spendUTXO a amt (u, w) = (Inl (InsufficientBalance amt (getBalance u a)), (u, w))"
  by (simp add: spendUTXO_def)

lemma spendUTXO_succeeds:
  assumes "\<not> getBalance u a < amt"
    and "selectLargest amt (sort_key (\<lambda>x. - utxo_amount x) (getUTXOs u a)) ([], 0) = (T, tot)"
  shows "\<exists>res. change res = tot - amt \<and> spendUTXO a amt (u, w) =
     (Inr res,
      if tot - amt > 0
      then addUTXO a (drawnId w) (tot - amt) 1
             (afterRemoval u a (foldl (\<lambda>l spent. removeSpent spent l) (getUTXOs u a) T) amt,
              afterIdDraw w)
      else (afterRemoval u a (foldl (\<lambda>l spent. removeSpent spent l) (getUTXOs u a) T) amt, w))"
  using assms
  by (cases "utxos u a")
     (simp_all add: spendUTXO_def Let_def afterRemoval_def afterIdDraw_def drawnId_def
        generateTxId_def dateNow_def mathRandom_def getBalance_def)

lemma generateTxId_drawnId: "fst (generateTxId w) = drawnId w"
  by (simp add: generateTxId_def dateNow_def mathRandom_def drawnId_def)

lemma afterRemoval_related:
  assumes r: "related B1 B2 u1 u2" and z: "paired B1 B2 z'"
  shows "related B1 B2 (afterRemoval u1 a (map fst z') amt) (afterRemoval u2 a (map snd z') amt)"
proof -
  from relatedD(2) [OF r, of a]
  show ?thesis
  proof
    assume "utxos u1 a = None \<and> utxos u2 a = None"
    then show ?thesis
      using related_balance_only [OF r, of a "getBalance u1 a - amt"] related_balance [OF r, of a]
      by (simp add: afterRemoval_def)
  next
    assume "\<exists>z. utxos u1 a = Some (map fst z) \<and> utxos u2 a = Some (map snd z) \<and> paired B1 B2 z"
    then show ?thesis
      using related_store [OF r z, of a "getBalance u1 a - amt"] related_balance [OF r, of a]
      by (auto simp: afterRemoval_def)
  qed
qed

lemma getUTXOs_afterRemoval:
  "set (getUTXOs (afterRemoval u a remaining amt) a) \<subseteq> set remaining \<union> set (getUTXOs u a)"
  by (auto simp: afterRemoval_def getUTXOs_def split: option.splits)

lemma changeId_fails:
  "fromAddress tx = Some a \<Longrightarrow> getBalance u a < amount tx + fee tx \<Longrightarrow> changeId tx (u, w) = []"
  by (simp add: changeId_def spendUTXO_fails)

lemma changeId_coinbase: "fromAddress tx = None \<Longrightarrow> changeId tx s = []"
  by (simp add: changeId_def)

lemma spendUTXO_related:
  assumes r: "related B1 B2 u1 u2" and s: "fromAddress tx = Some a"
    and f1: "set (changeId tx (u1, w1)) \<inter> B1 = {}"
    and f2: "set (changeId tx (u2, w2)) \<inter> B2 = {}"
  shows "(\<forall>e. fst (spendUTXO a (amount tx + fee tx) (u1, w1)) = Inl e \<longleftrightarrow>
              fst (spendUTXO a (amount tx + fee tx) (u2, w2)) = Inl e) \<and>
         related (B1 \<union> set (changeId tx (u1, w1))) (B2 \<union> set (changeId tx (u2, w2)))
           (fst (snd (spendUTXO a (amount tx + fee tx) (u1, w1))))
           (fst (snd (spendUTXO a (amount tx + fee tx) (u2, w2))))"
proof (cases "getBalance u1 a < amount tx + fee tx")
  case True
  then have t2: "getBalance u2 a < amount tx + fee tx" using related_balance [OF r, of a] by simp
  from True t2 r s show ?thesis
    using related_balance [OF r, of a] by (simp add: spendUTXO_fails changeId_fails)
next
  case False
  let ?amt = "amount tx + fee tx"
  from False have f2': "\<not> getBalance u2 a < ?amt" using related_balance [OF r, of a] by simp
  from related_outputs [OF r, of a] obtain z where z: "getUTXOs u1 a = map fst z"
    "getUTXOs u2 a = map snd z" "paired B1 B2 z" by blast
  have am: "\<forall>p\<in>set z. utxo_amount (fst p) = utxo_amount (snd p)"
    using z(3) by (auto simp: paired_def erased_def)
  then have "\<forall>p\<in>set z. - utxo_amount (fst p) = - utxo_amount (snd p)" by simp
  from sort_paired [of z "\<lambda>x. - utxo_amount x", OF this] obtain S where S: "set S = set z"
    "sort_key (\<lambda>x. - utxo_amount x) (map fst z) = map fst S"
    "sort_key (\<lambda>x. - utxo_amount x) (map snd z) = map snd S" by blast
  from am S(1) have "\<forall>p\<in>set S. utxo_amount (fst p) = utxo_amount (snd p)" by simp
  from selectLargest_paired [OF this, of "[]" ?amt 0] obtain T tot where T: "set T \<subseteq> set S"
    "selectLargest ?amt (map fst S) ([], 0) = (map fst T, tot)"
    "selectLargest ?amt (map snd S) ([], 0) = (map snd T, tot)" by auto
  have compat: "\<forall>p\<in>set z. \<forall>q\<in>set z. sameOutput (fst p) (fst q) = sameOutput (snd p) (snd q)"
    using z(3) by (simp add: paired_def)
  from T(1) S(1) have "set T \<subseteq> set z" by simp
  from removeAll_paired [OF compat this subset_refl] obtain z' where z': "set z' \<subseteq> set z"
    "foldl (\<lambda>l spent. removeSpent spent l) (map fst z) (map fst T) = map fst z'"
    "foldl (\<lambda>l spent. removeSpent spent l) (map snd z) (map snd T) = map snd z'" by blast
  have pz': "paired B1 B2 z'" using z'(1) z(3) by (rule paired_subset)
  let ?v1 = "afterRemoval u1 a (map fst z') ?amt"
  let ?v2 = "afterRemoval u2 a (map snd z') ?amt"
  have rv: "related B1 B2 ?v1 ?v2" using r pz' by (rule afterRemoval_related)
  from spendUTXO_succeeds [OF False, of "map fst T" tot w1] T(2) S(2) z(1) z'(2)
  obtain res1 where s1: "change res1 = tot - ?amt" "spendUTXO a ?amt (u1, w1) =
     (Inr res1, if tot - ?amt > 0 then addUTXO a (drawnId w1) (tot - ?amt) 1 (?v1, afterIdDraw w1)
                else (?v1, w1))" by auto
  from spendUTXO_succeeds [OF f2', of "map snd T" tot w2] T(3) S(3) z(2) z'(3)
  obtain res2 where s2: "change res2 = tot - ?amt" "spendUTXO a ?amt (u2, w2) =
     (Inr res2, if tot - ?amt > 0 then addUTXO a (drawnId w2) (tot - ?amt) 1 (?v2, afterIdDraw w2)
                else (?v2, w2))" by auto
  have c1: "changeId tx (u1, w1) = (if tot - ?amt > 0 then [drawnId w1] else [])"
    using s s1 by (simp add: changeId_def generateTxId_drawnId)
  have c2: "changeId tx (u2, w2) = (if tot - ?amt > 0 then [drawnId w2] else [])"
    using s s2 by (simp add: changeId_def generateTxId_drawnId)
  show ?thesis
  proof (cases "tot - ?amt > 0")
    case False
    with s1 s2 rv c1 c2 show ?thesis by simp
  next
    case True
    let ?C1 = "insert (drawnId w1) B1"
    let ?C2 = "insert (drawnId w2) B2"
    from True c1 f1 have n1: "drawnId w1 \<notin> B1" by simp
    from True c2 f2 have n2: "drawnId w2 \<notin> B2" by simp
    have rg: "related ?C1 ?C2 ?v1 ?v2"
      using subset_insertI subset_insertI rv by (rule related_mono)
    have prov: "\<forall>p\<in>set z. outputIndex (fst p) \<noteq> 0 \<longrightarrow>
          utxo_txId (fst p) \<in> B1 \<and> utxo_txId (snd p) \<in> B2"
      using z(3) by (simp add: paired_def)
    have idx: "\<forall>p\<in>set z. outputIndex (fst p) = outputIndex (snd p)"
      using z(3) by (auto simp: paired_def erased_def)
    have in1: "set (getUTXOs ?v1 a) \<subseteq> fst ` set z"
      using getUTXOs_afterRemoval [of u1 a "map fst z'" ?amt] z'(1) z(1) by auto
    have in2: "set (getUTXOs ?v2 a) \<subseteq> snd ` set z"
      using getUTXOs_afterRemoval [of u2 a "map snd z'" ?amt] z'(1) z(2) by auto
    have fr1: "\<forall>x\<in>set (getUTXOs ?v1 a). outputIndex x \<noteq> 0 \<longrightarrow> utxo_txId x \<noteq> drawnId w1"
    proof (intro ballI impI)
      fix x assume "x \<in> set (getUTXOs ?v1 a)" "outputIndex x \<noteq> 0"
      with in1 prov have "utxo_txId x \<in> B1" by auto
      with n1 show "utxo_txId x \<noteq> drawnId w1" by auto
    qed
    have fr2: "\<forall>x\<in>set (getUTXOs ?v2 a). outputIndex x \<noteq> 0 \<longrightarrow> utxo_txId x \<noteq> drawnId w2"
    proof (intro ballI impI)
      fix x assume "x \<in> set (getUTXOs ?v2 a)" "outputIndex x \<noteq> 0"
      with in2 prov idx have "utxo_txId x \<in> B2" by auto
      with n2 show "utxo_txId x \<noteq> drawnId w2" by auto
    qed
    have "related ?C1 ?C2 (fst (addUTXO a (drawnId w1) (tot - ?amt) 1 (?v1, afterIdDraw w1)))
                  (fst (addUTXO a (drawnId w2) (tot - ?amt) 1 (?v2, afterIdDraw w2)))"
      using rg fr1 fr2 by (intro addUTXO_related) auto
    then show ?thesis using s1 s2 c1 c2 True by simp
  qed
qed

subsection \<open>Transactions and chains in two runs\<close>

lemma processTransaction_related:
  assumes r: "related B1 B2 u1 u2"
    and f1: "set (changeId tx (u1, w1)) \<inter> B1 = {}"
    and f2: "set (changeId tx (u2, w2)) \<inter> B2 = {}"
  shows "fst (processTransaction tx (u1, w1)) = fst (processTransaction tx (u2, w2)) \<and>
         related (B1 \<union> set (changeId tx (u1, w1))) (B2 \<union> set (changeId tx (u2, w2)))
           (fst (snd (processTransaction tx (u1, w1))))
           (fst (snd (processTransaction tx (u2, w2))))"
proof (cases "fromAddress tx")
  case None
  have "related B1 B2 (fst (addUTXO (toAddress tx) (txId tx) (amount tx) 0 (u1, w1)))
                (fst (addUTXO (toAddress tx) (txId tx) (amount tx) 0 (u2, w2)))"
    using r by (intro addUTXO_related) auto
  with None show ?thesis
    by (simp add: processTransaction_def changeId_coinbase)
next
  case (Some sender)
  let ?m = "amount tx + fee tx"
  let ?C1 = "B1 \<union> set (changeId tx (u1, w1))"
  let ?C2 = "B2 \<union> set (changeId tx (u2, w2))"
  obtain q1 v1 x1 where s1: "spendUTXO sender ?m (u1, w1) = (q1, (v1, x1))"
    by (metis prod_cases3)
  obtain q2 v2 x2 where s2: "spendUTXO sender ?m (u2, w2) = (q2, (v2, x2))"
    by (metis prod_cases3)
  from spendUTXO_related [OF r Some f1 f2] s1 s2
  have e: "\<forall>e. q1 = Inl e \<longleftrightarrow> q2 = Inl e" and rv: "related ?C1 ?C2 v1 v2"
    by simp_all
  show ?thesis
  proof (cases q1)
    case (Inl err)
    with e have "q2 = Inl err" by blast
    with Inl Some s1 s2 rv show ?thesis by (simp add: processTransaction_def)
  next
    case (Inr res)
    with e obtain res2 where q2: "q2 = Inr res2" by (cases q2) auto
    have "related ?C1 ?C2 (fst (addUTXO (toAddress tx) (txId tx) (amount tx) 0 (v1, x1)))
                  (fst (addUTXO (toAddress tx) (txId tx) (amount tx) 0 (v2, x2)))"
      using rv by (intro addUTXO_related) auto
    then show ?thesis using Inr q2 Some s1 s2 by (simp add: processTransaction_def)
  qed
qed

lemma processTransactions_related:
  "related B1 B2 u1 u2 \<Longrightarrow>
   distinct (syntheticIds txs (u1, w1)) \<Longrightarrow> set (syntheticIds txs (u1, w1)) \<inter> B1 = {} \<Longrightarrow>
   distinct (syntheticIds txs (u2, w2)) \<Longrightarrow> set (syntheticIds txs (u2, w2)) \<inter> B2 = {} \<Longrightarrow>
   fst (processTransactions txs (u1, w1)) = fst (processTransactions txs (u2, w2)) \<and>
   (\<exists>C1 C2. related C1 C2 (fst (snd (processTransactions txs (u1, w1))))
                          (fst (snd (processTransactions txs (u2, w2)))))"
proof (induction txs arbitrary: B1 B2 u1 w1 u2 w2)
  case Nil
  then show ?case by auto
next
  case (Cons tx txs)
  let ?C1 = "B1 \<union> set (changeId tx (u1, w1))"
  let ?C2 = "B2 \<union> set (changeId tx (u2, w2))"
  obtain q1 v1 x1 where p1: "processTransaction tx (u1, w1) = (q1, (v1, x1))"
    by (metis prod_cases3)
  obtain q2 v2 x2 where p2: "processTransaction tx (u2, w2) = (q2, (v2, x2))"
    by (metis prod_cases3)
  have i1: "syntheticIds (tx # txs) (u1, w1) =
      changeId tx (u1, w1) @ (case q1 of Some e \<Rightarrow> [] | None \<Rightarrow> syntheticIds txs (v1, x1))"
    using p1 by (simp split: option.splits)
  have i2: "syntheticIds (tx # txs) (u2, w2) =
      changeId tx (u2, w2) @ (case q2 of Some e \<Rightarrow> [] | None \<Rightarrow> syntheticIds txs (v2, x2))"
    using p2 by (simp split: option.splits)
  note pr1 = Cons.prems(2,3) [unfolded i1]
  note pr2 = Cons.prems(4,5) [unfolded i2]
  from pr1(2) have f1: "set (changeId tx (u1, w1)) \<inter> B1 = {}" by auto
  from pr2(2) have f2: "set (changeId tx (u2, w2)) \<inter> B2 = {}" by auto
  from processTransaction_related [OF Cons.prems(1) f1 f2] p1 p2
  have q: "q1 = q2" and rv: "related ?C1 ?C2 v1 v2" by simp_all
  show ?case
  proof (cases q1)
    case (Some e)
    with q have "q2 = Some e" by simp
    with Some p1 p2 rv show ?thesis by auto
  next
    case None
    with q have n: "q2 = None" by simp
    from pr1 None have d1: "distinct (syntheticIds txs (v1, x1))"
      and e1: "set (syntheticIds txs (v1, x1)) \<inter> ?C1 = {}" by auto
    from pr2 n have d2: "distinct (syntheticIds txs (v2, x2))"
      and e2: "set (syntheticIds txs (v2, x2)) \<inter> ?C2 = {}" by auto
    from Cons.IH [OF rv d1 e1 d2 e2] None n p1 p2 show ?thesis by simp
  qed
qed

lemma related_visible:
  assumes "related B1 B2 u1 u2"
  shows "visibleLedger u1 = visibleLedger u2"
proof -
  have "map_option (map erased) (utxos u1 a) = map_option (map erased) (utxos u2 a)" for a
  proof -
    from relatedD(2) [OF assms, of a] show ?thesis
    proof
      assume "utxos u1 a = None \<and> utxos u2 a = None"
      then show ?thesis by simp
    next
      assume "\<exists>z. utxos u1 a = Some (map fst z) \<and> utxos u2 a = Some (map snd z) \<and> paired B1 B2 z"
      then obtain z where z: "utxos u1 a = Some (map fst z)" "utxos u2 a = Some (map snd z)"
        "paired B1 B2 z" by blast
      from z(3) have "map erased (map fst z) = map erased (map snd z)"
        by (simp add: paired_def)
      with z(1,2) show ?thesis by simp
    qed
  qed
  with relatedD(1) [OF assms] show ?thesis
    by (simp add: visibleLedger_def)
qed

lemma clear_empty: "clear u = emptyUTXOSet"
  by (simp add: clear_def emptyUTXOSet_def)

lemma related_empty: "related {} {} emptyUTXOSet emptyUTXOSet"
  by (simp add: related_def emptyUTXOSet_def)

lemma rebuildUTXOSet_eq:
  "fst (rebuildUTXOSet (bc, w)) =
     fst (processTransactions (concat (map transactions (chain bc))) (emptyUTXOSet, w)) \<and>
   utxoSet (fst (snd (rebuildUTXOSet (bc, w)))) =
     fst (snd (processTransactions (concat (map transactions (chain bc))) (emptyUTXOSet, w)))"
  by (simp add: rebuildUTXOSet_def processBlocks_concat clear_empty split: prod.splits)

text \<open>
  Two runs over the same transactions from the empty ledger, in any two worlds, in each
  of which the synthetic ids of the run are pairwise distinct.
\<close>

lemma runs_agree:
  assumes "distinct (syntheticIds txs (emptyUTXOSet, w1))"
    and "distinct (syntheticIds txs (emptyUTXOSet, w2))"
  shows "fst (processTransactions txs (emptyUTXOSet, w1)) =
           fst (processTransactions txs (emptyUTXOSet, w2)) \<and>
         visibleLedger (fst (snd (processTransactions txs (emptyUTXOSet, w1)))) =
           visibleLedger (fst (snd (processTransactions txs (emptyUTXOSet, w2))))"
proof -
  have "set (syntheticIds txs (emptyUTXOSet, w1)) \<inter> {} = {}"
    and "set (syntheticIds txs (emptyUTXOSet, w2)) \<inter> {} = {}" by simp_all
  from processTransactions_related [OF related_empty assms(1) this(1) assms(2) this(2)]
  obtain C1 C2 where
    a: "fst (processTransactions txs (emptyUTXOSet, w1)) =
        fst (processTransactions txs (emptyUTXOSet, w2))"
    and b: "related C1 C2 (fst (snd (processTransactions txs (emptyUTXOSet, w1))))
                          (fst (snd (processTransactions txs (emptyUTXOSet, w2))))"
    by auto
  from a related_visible [OF b] show ?thesis by simp
qed

text \<open>
  C9, as amended. Take a prefix of a chain and two runs over its transactions, each in
  its own world (clock and random numbers), such that within each run the synthetic tx
  ids that the run builds for change outputs are pairwise distinct. Folding the
  transactions of the prefix over the empty ledger in one run and rebuilding the prefix
  in the other, and likewise two rebuilds of the prefix, end with the same error or
  success, the same balances and, for every address, the same outputs in the same order
  up to the timestamp of each output and the tx id of change outputs.
\<close>

theorem rebuild_deterministic_up_to_clock:
  assumes "distinct (syntheticIds (concat (map transactions (take k c))) (emptyUTXOSet, w1))"
    and "distinct (syntheticIds (concat (map transactions (take k c))) (emptyUTXOSet, w2))"
  shows "fst (processTransactions (concat (map transactions (take k c))) (emptyUTXOSet, w1)) =
           fst (rebuildUTXOSet (bc\<lparr>chain := take k c\<rparr>, w2)) \<and>
         visibleLedger
           (fst (snd (processTransactions (concat (map transactions (take k c))) (emptyUTXOSet, w1)))) =
           visibleLedger (utxoSet (fst (snd (rebuildUTXOSet (bc\<lparr>chain := take k c\<rparr>, w2))))) \<and>
         fst (rebuildUTXOSet (bc\<lparr>chain := take k c\<rparr>, w1)) =
           fst (rebuildUTXOSet (bc\<lparr>chain := take k c\<rparr>, w2)) \<and>
         visibleLedger (utxoSet (fst (snd (rebuildUTXOSet (bc\<lparr>chain := take k c\<rparr>, w1))))) =
           visibleLedger (utxoSet (fst (snd (rebuildUTXOSet (bc\<lparr>chain := take k c\<rparr>, w2)))))"
  using runs_agree [OF assms] rebuildUTXOSet_eq [of "bc\<lparr>chain := take k c\<rparr>" w1]
    rebuildUTXOSet_eq [of "bc\<lparr>chain := take k c\<rparr>" w2]
  by simp

theorem rebuild_deterministic_up_to_clock_witness:
  "take 1 (chain spendingChain) = [spendingBlock] \<and>
   map txId (transactions spendingBlock) = [''c1'', ''t1'', ''t2''] \<and>
   syntheticIds (transactions spendingBlock) (emptyUTXOSet, demoWorld) =
     [''1001x7f3k9q20'', ''1004x7f3k9q21''] \<and>
   syntheticIds (transactions spendingBlock) (emptyUTXOSet, otherWorld) =
     [''502m4p8z1w60'', ''508m4p8z1w61''] \<and>
   fst (processTransactions (transactions spendingBlock) (emptyUTXOSet, demoWorld)) =
     fst (rebuildUTXOSet (spendingChain\<lparr>chain := [spendingBlock]\<rparr>, otherWorld)) \<and>
   visibleLedger (fst (snd (processTransactions (transactions spendingBlock)
                              (emptyUTXOSet, demoWorld)))) =
     visibleLedger (utxoSet (fst (snd (rebuildUTXOSet
       (spendingChain\<lparr>chain := [spendingBlock]\<rparr>, otherWorld))))) \<and>
   visibleLedger (utxoSet (fst (snd (rebuildUTXOSet
       (spendingChain\<lparr>chain := [spendingBlock]\<rparr>, demoWorld))))) =
     visibleLedger (utxoSet (fst (snd (rebuildUTXOSet
       (spendingChain\<lparr>chain := [spendingBlock]\<rparr>, otherWorld))))) \<and>
   map erased (getUTXOs (utxoSet (fst (snd (rebuildUTXOSet
       (spendingChain\<lparr>chain := [spendingBlock]\<rparr>, demoWorld))))) ''cosmosM'') =
     [([], 35, 1)] \<and>
   map erased (getUTXOs (utxoSet (fst (snd (rebuildUTXOSet
       (spendingChain\<lparr>chain := [spendingBlock]\<rparr>, otherWorld))))) ''cosmosM'') =
     [([], 35, 1)]"
proof -
  have tk: "take 1 (chain spendingChain) = [spendingBlock]"
    by (simp add: spendingChain_def)
  have cc: "concat (map transactions [spendingBlock]) = transactions spendingBlock"
    by simp
  have ids: "map txId (transactions spendingBlock) = [''c1'', ''t1'', ''t2'']"
    by code_simp
  have i1: "syntheticIds (transactions spendingBlock) (emptyUTXOSet, demoWorld) =
      [''1001x7f3k9q20'', ''1004x7f3k9q21'']"
    by code_simp
  have i2: "syntheticIds (transactions spendingBlock) (emptyUTXOSet, otherWorld) =
      [''502m4p8z1w60'', ''508m4p8z1w61'']"
    by code_simp
  have d1: "distinct (syntheticIds (concat (map transactions (take 1 (chain spendingChain))))
      (emptyUTXOSet, demoWorld))"
    unfolding tk cc i1 by simp
  have d2: "distinct (syntheticIds (concat (map transactions (take 1 (chain spendingChain))))
      (emptyUTXOSet, otherWorld))"
    unfolding tk cc i2 by simp
  have a: "getUTXOs (utxoSet (fst (snd (rebuildUTXOSet
       (spendingChain\<lparr>chain := [spendingBlock]\<rparr>, demoWorld))))) ''cosmosM'' =
     [\<lparr>utxo_txId = ''1004x7f3k9q21'', utxo_amount = 35, outputIndex = 1, utxo_timestamp = 1005\<rparr>]"
    by code_simp
  have b: "getUTXOs (utxoSet (fst (snd (rebuildUTXOSet
       (spendingChain\<lparr>chain := [spendingBlock]\<rparr>, otherWorld))))) ''cosmosM'' =
     [\<lparr>utxo_txId = ''508m4p8z1w61'', utxo_amount = 35, outputIndex = 1, utxo_timestamp = 510\<rparr>]"
    by code_simp
  have ea: "map erased (getUTXOs (utxoSet (fst (snd (rebuildUTXOSet
       (spendingChain\<lparr>chain := [spendingBlock]\<rparr>, demoWorld))))) ''cosmosM'') = [([], 35, 1)]"
    unfolding a by (simp add: erased_def)
  have eb: "map erased (getUTXOs (utxoSet (fst (snd (rebuildUTXOSet
       (spendingChain\<lparr>chain := [spendingBlock]\<rparr>, otherWorld))))) ''cosmosM'') = [([], 35, 1)]"
    unfolding b by (simp add: erased_def)
  note t = rebuild_deterministic_up_to_clock [OF d1 d2, of spendingChain, unfolded tk cc]
  from t tk ids i1 i2 ea eb show ?thesis by blast
qed

text \<open>
  The claim as stated has the two ledgers identical in all fields. Rebuilding one chain
  under two clocks gives outputs with different timestamps and change outputs with
  different tx ids.
\<close>

theorem rebuild_timestamps_differ:
  "getUTXOs (utxoSet (fst (snd (rebuildUTXOSet (spendingChain, demoWorld))))) ''cosmosM'' =
     [\<lparr>utxo_txId = ''1004x7f3k9q21'', utxo_amount = 35, outputIndex = 1, utxo_timestamp = 1005\<rparr>] \<and>
   getUTXOs (utxoSet (fst (snd (rebuildUTXOSet (spendingChain, otherWorld))))) ''cosmosM'' =
     [\<lparr>utxo_txId = ''508m4p8z1w61'', utxo_amount = 35, outputIndex = 1, utxo_timestamp = 510\<rparr>] \<and>
   getUTXOs (utxoSet (fst (snd (rebuildUTXOSet (spendingChain, demoWorld))))) ''cosmosN'' =
     [\<lparr>utxo_txId = ''c2'', utxo_amount = 20, outputIndex = 0, utxo_timestamp = 1007\<rparr>] \<and>
   getUTXOs (utxoSet (fst (snd (rebuildUTXOSet (spendingChain, otherWorld))))) ''cosmosN'' =
     [\<lparr>utxo_txId = ''c2'', utxo_amount = 20, outputIndex = 0, utxo_timestamp = 514\<rparr>] \<and>
   utxoSet (fst (snd (rebuildUTXOSet (spendingChain, demoWorld)))) \<noteq>
     utxoSet (fst (snd (rebuildUTXOSet (spendingChain, otherWorld))))"
proof -
  have a: "getUTXOs (utxoSet (fst (snd (rebuildUTXOSet (spendingChain, demoWorld))))) ''cosmosM'' =
     [\<lparr>utxo_txId = ''1004x7f3k9q21'', utxo_amount = 35, outputIndex = 1, utxo_timestamp = 1005\<rparr>]"
    by code_simp
  have b: "getUTXOs (utxoSet (fst (snd (rebuildUTXOSet (spendingChain, otherWorld))))) ''cosmosM'' =
     [\<lparr>utxo_txId = ''508m4p8z1w61'', utxo_amount = 35, outputIndex = 1, utxo_timestamp = 510\<rparr>]"
    by code_simp
  have c: "getUTXOs (utxoSet (fst (snd (rebuildUTXOSet (spendingChain, demoWorld))))) ''cosmosN'' =
     [\<lparr>utxo_txId = ''c2'', utxo_amount = 20, outputIndex = 0, utxo_timestamp = 1007\<rparr>]"
    by code_simp
  have d: "getUTXOs (utxoSet (fst (snd (rebuildUTXOSet (spendingChain, otherWorld))))) ''cosmosN'' =
     [\<lparr>utxo_txId = ''c2'', utxo_amount = 20, outputIndex = 0, utxo_timestamp = 514\<rparr>]"
    by code_simp
  from a b have "getUTXOs (utxoSet (fst (snd (rebuildUTXOSet (spendingChain, demoWorld))))) ''cosmosM'' \<noteq>
      getUTXOs (utxoSet (fst (snd (rebuildUTXOSet (spendingChain, otherWorld))))) ''cosmosM''"
    by simp
  then have "utxoSet (fst (snd (rebuildUTXOSet (spendingChain, demoWorld)))) \<noteq>
     utxoSet (fst (snd (rebuildUTXOSet (spendingChain, otherWorld))))"
    by auto
  with a b c d show ?thesis by simp
qed

end
